theory Spec2Isabelle
  imports Main
begin

section \<open>SimpleVector: a resizable array over a fixed-size buffer\<close>

text \<open>
  The embedding follows \<^verbatim>\<open>simple_vector.h\<close>. A container is a record of its three
  members; a member function takes the container and returns it updated. Iterators are
  offsets from \<^verbatim>\<open>begin()\<close>. The type \<^verbatim>\<open>size_t\<close> is \<open>nat\<close>: a block of \<open>c\<close> elements
  takes at least \<open>c\<close> bytes of an address space in which no object is larger than
  \<open>2 ^ 63 - 1\<close> bytes, so that \<^verbatim>\<open>capacity_ * 2\<close> and \<^verbatim>\<open>size_ + 1\<close> do not wrap around
  for any block that exists. Allocation never fails.
  Elements are values. A move transfers the value of its source and leaves the source in
  the state \<open>mv x\<close>; the function \<open>mv\<close> belongs to the element type and is a parameter
  of every operation that moves from an object which can be reached afterwards.

  Three outcomes are not values of the container: the exception \<^verbatim>\<open>std::out_of_range\<close>,
  undefined behaviour (a failed \<^verbatim>\<open>assert\<close>, a read or write outside the allocated block
  or in a released block), and a statement to which C++ gives no meaning, so that a
  program reaching it through a call is rejected by the compiler.
\<close>

datatype error = OutOfRange | Undefined | IllFormed

definition and_then :: "error + 'a \<Rightarrow> ('a \<Rightarrow> error + 'b) \<Rightarrow> error + 'b" where
  "and_then m f = (case m of Inl e \<Rightarrow> Inl e | Inr x \<Rightarrow> f x)"

subsection \<open>The buffer\<close>

text \<open>
  Modelled from the spec: \<^verbatim>\<open>array_ptr.h\<close> (the class \<^verbatim>\<open>ArrayPtr\<close>) is not among the
  sources. The spec's Buffer is a block of exactly \<open>n\<close> elements, indexed without bounds
  checking, whose ownership is exchanged by \<^verbatim>\<open>swap\<close> and stolen by move assignment.
  The block is the list of its slots; its length is the allocated count. A fresh block
  holds the value \<open>d\<close> of \<^verbatim>\<open>Type()\<close> in every slot.
\<close>

definition ArrayPtr :: "'a \<Rightarrow> nat \<Rightarrow> 'a list" where
  "ArrayPtr d n = replicate n d"

text \<open>
  Modelled from the spec: indexing is valid only inside the allocated range; outside it
  the behaviour is undefined.
\<close>

definition ArrayPtr_get :: "'a list \<Rightarrow> nat \<Rightarrow> error + 'a" where
  "ArrayPtr_get buf i = (if i < length buf then Inr (buf ! i) else Inl Undefined)"

definition ArrayPtr_set :: "'a list \<Rightarrow> nat \<Rightarrow> 'a \<Rightarrow> error + 'a list" where
  "ArrayPtr_set buf i x = (if i < length buf then Inr (buf[i := x]) else Inl Undefined)"

text \<open>
  A parameter of type \<^verbatim>\<open>const Type&\<close> or \<^verbatim>\<open>Type&&\<close> is a reference: it denotes an
  object outside the block of the container, given by its value, or an element of the
  container's own block, given by its offset (as in \<^verbatim>\<open>v.PushBack(v[0])\<close>). Reading
  through a reference into a block that has been released is undefined.
\<close>

datatype 'a arg = Value 'a | Element nat

definition read_arg :: "bool \<Rightarrow> 'a list \<Rightarrow> 'a arg \<Rightarrow> error + 'a" where
  "read_arg released buf a =
     (case a of
        Value x \<Rightarrow> Inr x
      | Element i \<Rightarrow> if released then Inl Undefined else ArrayPtr_get buf i)"

text \<open>
  After \<^verbatim>\<open>dest = std::move(a)\<close> the object behind the reference is in its moved-from
  state; for an element of the block that is a change of the block.
\<close>

definition leave_moved :: "('a \<Rightarrow> 'a) \<Rightarrow> 'a list \<Rightarrow> 'a arg \<Rightarrow> 'a list" where
  "leave_moved mv buf a =
     (case a of
        Value x \<Rightarrow> buf
      | Element i \<Rightarrow> if i < length buf then buf[i := mv (buf ! i)] else buf)"

subsection \<open>The standard algorithms the container calls\<close>

text \<open>
  \<open>read_range buf first_i last_i\<close> reads the slots \<open>[first_i, last_i)\<close> of a block and
  \<open>write_range buf k xs\<close> stores \<open>xs\<close> from slot \<open>k\<close> on; both are undefined outside
  the block.
\<close>

definition read_range :: "'a list \<Rightarrow> nat \<Rightarrow> nat \<Rightarrow> error + 'a list" where
  "read_range buf first_i last_i =
     (if first_i \<le> last_i \<and> last_i \<le> length buf
      then Inr (take (last_i - first_i) (drop first_i buf))
      else Inl Undefined)"

definition write_range :: "'a list \<Rightarrow> nat \<Rightarrow> 'a list \<Rightarrow> error + 'a list" where
  "write_range buf k xs =
     (if k + length xs \<le> length buf
      then Inr (take k buf @ xs @ drop (k + length xs) buf)
      else Inl Undefined)"

text \<open>
  \<^verbatim>\<open>std::copy\<close> and \<^verbatim>\<open>std::move\<close> from the range \<open>[first_i, last_i)\<close> of one block to
  another block, from \<open>d_first\<close> on.
\<close>

definition std_copy :: "'a list \<Rightarrow> nat \<Rightarrow> nat \<Rightarrow> 'a list \<Rightarrow> nat \<Rightarrow> error + 'a list" where
  "std_copy src first_i last_i dst d_first =
     and_then (read_range src first_i last_i) (write_range dst d_first)"

text \<open>\<^verbatim>\<open>std::fill\<close> of the range \<open>[first_i, last_i)\<close> of a block.\<close>

definition std_fill :: "'a list \<Rightarrow> nat \<Rightarrow> nat \<Rightarrow> 'a \<Rightarrow> error + 'a list" where
  "std_fill buf first_i last_i val = write_range buf first_i (replicate (last_i - first_i) val)"

text \<open>
  \<^verbatim>\<open>std::copy_backward\<close> and \<^verbatim>\<open>std::move_backward\<close> to another block: the copied
  range ends at \<open>d_last\<close>.
\<close>

definition std_copy_backward ::
  "'a list \<Rightarrow> nat \<Rightarrow> nat \<Rightarrow> 'a list \<Rightarrow> nat \<Rightarrow> error + 'a list" where
  "std_copy_backward src first_i last_i dst d_last =
     (if d_last < last_i - first_i then Inl Undefined
      else and_then (read_range src first_i last_i) (write_range dst (d_last - (last_i - first_i))))"

text \<open>
  Inside one block \<^verbatim>\<open>std::copy\<close> and \<^verbatim>\<open>std::move\<close> are undefined when \<open>d_first\<close> lies
  in \<open>[first_i, last_i)\<close>, and \<^verbatim>\<open>std::copy_backward\<close> and \<^verbatim>\<open>std::move_backward\<close> when
  \<open>d_last\<close> lies in \<open>(first_i, last_i]\<close>; otherwise the destination receives the values
  the source range held before the call.
\<close>

definition std_copy_within :: "'a list \<Rightarrow> nat \<Rightarrow> nat \<Rightarrow> nat \<Rightarrow> error + 'a list" where
  "std_copy_within buf first_i last_i d_first =
     (if first_i \<le> d_first \<and> d_first < last_i then Inl Undefined
      else and_then (read_range buf first_i last_i) (write_range buf d_first))"

text \<open>
  The moving algorithms \<^verbatim>\<open>std::move\<close> and \<^verbatim>\<open>std::move_backward\<close> put the same values
  into the destination and leave every source slot that is not overwritten as part of
  the destination in its moved-from state. Between two blocks the result is the source
  block and the destination block.
\<close>

definition moved_from :: "('a \<Rightarrow> 'a) \<Rightarrow> 'a list \<Rightarrow> nat \<Rightarrow> nat \<Rightarrow> 'a list" where
  "moved_from mv buf first_i last_i =
     take first_i buf @ map mv (take (last_i - first_i) (drop first_i buf)) @ drop last_i buf"

definition std_move ::
  "('a \<Rightarrow> 'a) \<Rightarrow> 'a list \<Rightarrow> nat \<Rightarrow> nat \<Rightarrow> 'a list \<Rightarrow> nat \<Rightarrow> error + ('a list \<times> 'a list)" where
  "std_move mv src first_i last_i dst d_first =
     and_then (std_copy src first_i last_i dst d_first) (\<lambda>dst'.
       Inr (moved_from mv src first_i last_i, dst'))"

definition std_move_backward ::
  "('a \<Rightarrow> 'a) \<Rightarrow> 'a list \<Rightarrow> nat \<Rightarrow> nat \<Rightarrow> 'a list \<Rightarrow> nat \<Rightarrow> error + ('a list \<times> 'a list)" where
  "std_move_backward mv src first_i last_i dst d_last =
     and_then (std_copy_backward src first_i last_i dst d_last) (\<lambda>dst'.
       Inr (moved_from mv src first_i last_i, dst'))"

definition std_move_within ::
  "('a \<Rightarrow> 'a) \<Rightarrow> 'a list \<Rightarrow> nat \<Rightarrow> nat \<Rightarrow> nat \<Rightarrow> error + 'a list" where
  "std_move_within mv buf first_i last_i d_first =
     (if first_i \<le> d_first \<and> d_first < last_i then Inl Undefined
      else and_then (read_range buf first_i last_i)
             (write_range (moved_from mv buf first_i last_i) d_first))"

definition std_move_backward_within ::
  "('a \<Rightarrow> 'a) \<Rightarrow> 'a list \<Rightarrow> nat \<Rightarrow> nat \<Rightarrow> nat \<Rightarrow> error + 'a list" where
  "std_move_backward_within mv buf first_i last_i d_last =
     (if first_i < d_last \<and> d_last \<le> last_i then Inl Undefined
      else if d_last < last_i - first_i then Inl Undefined
      else and_then (read_range buf first_i last_i)
             (write_range (moved_from mv buf first_i last_i) (d_last - (last_i - first_i))))"

text \<open>
  \<^verbatim>\<open>std::equal\<close> on two ranges of random-access iterators: ranges of different length
  are unequal without any element being read.
\<close>

definition std_equal ::
  "'a list \<Rightarrow> nat \<Rightarrow> nat \<Rightarrow> 'a list \<Rightarrow> nat \<Rightarrow> nat \<Rightarrow> error + bool" where
  "std_equal a first1 last1 b first2 last2 =
     (if last1 - first1 \<noteq> last2 - first2 then Inr False
      else and_then (read_range a first1 last1) (\<lambda>xs.
           and_then (read_range b first2 last2) (\<lambda>ys. Inr (xs = ys))))"

fun lexicographical_compare :: "('a::ord) list \<Rightarrow> 'a list \<Rightarrow> bool" where
  "lexicographical_compare [] [] = False"
| "lexicographical_compare [] (y # ys) = True"
| "lexicographical_compare (x # xs) [] = False"
| "lexicographical_compare (x # xs) (y # ys) =
     (if x < y then True else if y < x then False else lexicographical_compare xs ys)"

subsection \<open>The container\<close>

record 'a SimpleVector =
  v_items :: "'a list"
  v_size :: nat
  v_capacity :: nat

text \<open>The accessors.\<close>

definition GetSize :: "'a SimpleVector \<Rightarrow> nat" where
  "GetSize v = v_size v"

definition GetCapacity :: "'a SimpleVector \<Rightarrow> nat" where
  "GetCapacity v = v_capacity v"

definition IsEmpty :: "'a SimpleVector \<Rightarrow> bool" where
  "IsEmpty v = (v_size v = 0)"

text \<open>\<^verbatim>\<open>begin()\<close> and \<^verbatim>\<open>end()\<close>, as offsets into the block.\<close>

definition begin_it :: "'a SimpleVector \<Rightarrow> nat" where
  "begin_it v = 0"

definition end_it :: "'a SimpleVector \<Rightarrow> nat" where
  "end_it v = v_size v"

text \<open>
  The loop \<^verbatim>\<open>for (i = from; i < to; ++i) buf[i] = x\<close> of the fill constructor and of
  \<^verbatim>\<open>Resize\<close>.
\<close>

function fill_loop :: "'a \<Rightarrow> 'a list \<Rightarrow> nat \<Rightarrow> nat \<Rightarrow> error + 'a list" where
  "fill_loop x buf i n =
     (if i < n
      then (case ArrayPtr_set buf i x of
              Inl e \<Rightarrow> Inl e
            | Inr buf' \<Rightarrow> fill_loop x buf' (Suc i) n)
      else Inr buf)"
  by pat_completeness auto
termination
  by (relation "measure (\<lambda>(x, buf, i, n). n - i)") auto

declare fill_loop.simps [simp del]

text \<open>The default constructor: no storage, size and capacity 0.\<close>

definition SimpleVector_default :: "'a SimpleVector" where
  "SimpleVector_default = \<lparr>v_items = [], v_size = 0, v_capacity = 0\<rparr>"

text \<open>\<^verbatim>\<open>SimpleVector(size_t size, const Type& value)\<close>: \<^verbatim>\<open>std::fill\<close> over the block.\<close>

definition SimpleVector_fill :: "'a \<Rightarrow> nat \<Rightarrow> 'a \<Rightarrow> error + 'a SimpleVector" where
  "SimpleVector_fill d n val =
     and_then (std_fill (ArrayPtr d n) 0 (0 + n) val) (\<lambda>buf.
       Inr \<lparr>v_items = buf, v_size = n, v_capacity = n\<rparr>)"

text \<open>
  \<^verbatim>\<open>SimpleVector(size_t size, Type&& value)\<close>: the loop
  \<^verbatim>\<open>for (i = 0; i < size; ++i) tmp[i] = std::move(value)\<close> moves from the same object in
  every iteration, so each slot receives the state the previous move has left; the block
  \<open>tmp\<close> is then swapped in.
\<close>

function fill_move_loop ::
  "('a \<Rightarrow> 'a) \<Rightarrow> 'a \<Rightarrow> 'a list \<Rightarrow> nat \<Rightarrow> nat \<Rightarrow> error + 'a list" where
  "fill_move_loop mv val buf i n =
     (if i < n
      then (case ArrayPtr_set buf i val of
              Inl e \<Rightarrow> Inl e
            | Inr buf' \<Rightarrow> fill_move_loop mv (mv val) buf' (Suc i) n)
      else Inr buf)"
  by pat_completeness auto
termination
  by (relation "measure (\<lambda>(mv, val, buf, i, n). n - i)") auto

declare fill_move_loop.simps [simp del]

definition SimpleVector_fill_move ::
  "('a \<Rightarrow> 'a) \<Rightarrow> 'a \<Rightarrow> nat \<Rightarrow> 'a \<Rightarrow> error + 'a SimpleVector" where
  "SimpleVector_fill_move mv d n val =
     and_then (fill_move_loop mv val (ArrayPtr d n) 0 n) (\<lambda>tmp.
       Inr \<lparr>v_items = tmp, v_size = n, v_capacity = n\<rparr>)"

text \<open>
  \<^verbatim>\<open>SimpleVector(size_t size)\<close> delegates to \<^verbatim>\<open>SimpleVector(size, Type())\<close>; the
  temporary \<^verbatim>\<open>Type()\<close> selects the overload taking \<^verbatim>\<open>Type&&\<close>. The temporary, moved
  from, is taken to hold the value of \<^verbatim>\<open>Type()\<close> still.
\<close>

definition SimpleVector_n :: "'a \<Rightarrow> nat \<Rightarrow> error + 'a SimpleVector" where
  "SimpleVector_n d n = SimpleVector_fill_move (\<lambda>x. x) d n d"

text \<open>\<^verbatim>\<open>SimpleVector(std::initializer_list<Type> init)\<close>.\<close>

definition SimpleVector_init :: "'a \<Rightarrow> 'a list \<Rightarrow> error + 'a SimpleVector" where
  "SimpleVector_init d init =
     and_then (std_copy init 0 (length init) (ArrayPtr d (length init)) 0) (\<lambda>buf.
       Inr \<lparr>v_items = buf, v_size = length init, v_capacity = length init\<rparr>)"

text \<open>
  The copy constructor: the block has \<^verbatim>\<open>other.GetSize()\<close> slots, the member
  \<^verbatim>\<open>capacity_\<close> is initialised with \<^verbatim>\<open>other.GetCapacity()\<close>.
\<close>

definition SimpleVector_copy :: "'a \<Rightarrow> 'a SimpleVector \<Rightarrow> error + 'a SimpleVector" where
  "SimpleVector_copy d other =
     (let this = \<lparr>v_items = ArrayPtr d (GetSize other), v_size = GetSize other,
                  v_capacity = GetCapacity other\<rparr>
      in and_then (SimpleVector_n d (v_size this)) (\<lambda>tmp.
         and_then (std_copy (v_items other) (begin_it other) (end_it other)
                            (v_items tmp) (begin_it tmp)) (\<lambda>tmp_items.
           Inr (this\<lparr>v_items := tmp_items\<rparr>))))"

text \<open>
  The move constructor; it returns the new container and the source, whose size and
  capacity are set to 0.
\<close>

definition SimpleVector_move ::
  "'a \<Rightarrow> 'a SimpleVector \<Rightarrow> error + ('a SimpleVector \<times> 'a SimpleVector)" where
  "SimpleVector_move d other =
     (let this = \<lparr>v_items = ArrayPtr d (GetSize other), v_size = GetSize other,
                  v_capacity = GetCapacity other\<rparr>
      in and_then (std_copy (v_items other) (begin_it other) (end_it other)
                            (v_items this) (begin_it this)) (\<lambda>buf.
           Inr (this\<lparr>v_items := buf\<rparr>, other\<lparr>v_size := 0, v_capacity := 0\<rparr>)))"

text \<open>\<^verbatim>\<open>operator[]\<close>: the assertion, then the slot.\<close>

definition subscript :: "'a SimpleVector \<Rightarrow> nat \<Rightarrow> error + 'a" where
  "subscript v index =
     (if index < v_size v then ArrayPtr_get (v_items v) index else Inl Undefined)"

text \<open>
  \<^verbatim>\<open>At\<close> (both overloads): the outcome, and the container after the call.
\<close>

definition At :: "'a SimpleVector \<Rightarrow> nat \<Rightarrow> (error + 'a) \<times> 'a SimpleVector" where
  "At v index =
     (if index \<ge> v_size v then (Inl OutOfRange, v)
      else (ArrayPtr_get (v_items v) index, v))"

definition Clear :: "'a SimpleVector \<Rightarrow> 'a SimpleVector" where
  "Clear v = v\<lparr>v_size := 0\<rparr>"

text \<open>
  Move assignment: the block and the size are taken from \<open>rhs\<close>, whose size and capacity
  become 0; \<^verbatim>\<open>capacity_\<close> of the target is not assigned. The result is the target and
  the source after the call.
  Modelled from the spec: move assignment of \<^verbatim>\<open>ArrayPtr\<close> (in \<^verbatim>\<open>array_ptr.h\<close>, not
  among the sources) steals the storage, so the source keeps no block.
\<close>

definition move_assign ::
  "'a SimpleVector \<Rightarrow> 'a SimpleVector \<Rightarrow> 'a SimpleVector \<times> 'a SimpleVector" where
  "move_assign this rhs =
     (this\<lparr>v_items := v_items rhs, v_size := v_size rhs\<rparr>,
      rhs\<lparr>v_items := [], v_capacity := 0, v_size := 0\<rparr>)"

definition Resize :: "'a \<Rightarrow> nat \<Rightarrow> 'a SimpleVector \<Rightarrow> error + 'a SimpleVector" where
  "Resize d new_size v =
     (if new_size \<ge> v_size v then
        (if v_capacity v \<ge> new_size then
           and_then (fill_loop d (v_items v) (v_size v) new_size) (\<lambda>buf.
             Inr (v\<lparr>v_items := buf, v_size := new_size\<rparr>))
         else
           and_then (SimpleVector_n d (max (v_capacity v * 2) new_size)) (\<lambda>tmp.
           and_then (std_copy (v_items v) (begin_it v) (end_it v)
                              (v_items tmp) (begin_it tmp)) (\<lambda>buf.
           and_then (fill_loop d buf (v_size v) new_size) (\<lambda>buf'.
             (let tmp' = tmp\<lparr>v_items := buf', v_size := new_size\<rparr>;
                  this = fst (move_assign v tmp');
                  this' = this\<lparr>v_capacity := max (v_capacity this * 2) new_size\<rparr>
              in Inr (this'\<lparr>v_size := new_size\<rparr>))))))
      else Inr (v\<lparr>v_size := new_size\<rparr>))"

definition Reserve :: "'a \<Rightarrow> nat \<Rightarrow> 'a SimpleVector \<Rightarrow> error + 'a SimpleVector" where
  "Reserve d new_capacity v =
     (if new_capacity > v_capacity v then
        and_then (std_copy (v_items v) 0 (v_size v) (ArrayPtr d new_capacity) 0) (\<lambda>new_cont.
          Inr (v\<lparr>v_items := new_cont, v_capacity := new_capacity\<rparr>))
      else Inr v)"

text \<open>\<^verbatim>\<open>SimpleVector(ReserveProxyObj obj)\<close>.\<close>

definition SimpleVector_reserve :: "'a \<Rightarrow> nat \<Rightarrow> error + 'a SimpleVector" where
  "SimpleVector_reserve d capacity_to_reserve =
     Reserve d capacity_to_reserve SimpleVector_default"

text \<open>\<^verbatim>\<open>swap\<close>: the three members are exchanged; the result is (this, other).\<close>

definition swap_v ::
  "'a SimpleVector \<Rightarrow> 'a SimpleVector \<Rightarrow> 'a SimpleVector \<times> 'a SimpleVector" where
  "swap_v this other =
     (this\<lparr>v_items := v_items other, v_size := v_size other, v_capacity := v_capacity other\<rparr>,
      other\<lparr>v_items := v_items this, v_size := v_size this, v_capacity := v_capacity this\<rparr>)"

text \<open>
  \<^verbatim>\<open>operator==\<close>. The flag \<open>same\<close> tells whether the two references denote one object
  (\<^verbatim>\<open>&lhs == &rhs\<close>).
\<close>

definition operator_eq :: "bool \<Rightarrow> 'a SimpleVector \<Rightarrow> 'a SimpleVector \<Rightarrow> error + bool" where
  "operator_eq same lhs rhs =
     (if same then Inr True
      else std_equal (v_items lhs) (begin_it lhs) (end_it lhs)
                     (v_items rhs) (begin_it rhs) (end_it rhs))"

definition operator_ne :: "bool \<Rightarrow> 'a SimpleVector \<Rightarrow> 'a SimpleVector \<Rightarrow> error + bool" where
  "operator_ne same lhs rhs = and_then (operator_eq same lhs rhs) (\<lambda>b. Inr (\<not> b))"

definition operator_lt :: "('a::ord) SimpleVector \<Rightarrow> 'a SimpleVector \<Rightarrow> error + bool" where
  "operator_lt lhs rhs =
     and_then (read_range (v_items lhs) (begin_it lhs) (end_it lhs)) (\<lambda>xs.
     and_then (read_range (v_items rhs) (begin_it rhs) (end_it rhs)) (\<lambda>ys.
       Inr (lexicographical_compare xs ys)))"

definition operator_le :: "('a::ord) SimpleVector \<Rightarrow> 'a SimpleVector \<Rightarrow> error + bool" where
  "operator_le lhs rhs = and_then (operator_lt rhs lhs) (\<lambda>b. Inr (\<not> b))"

definition operator_gt :: "('a::ord) SimpleVector \<Rightarrow> 'a SimpleVector \<Rightarrow> error + bool" where
  "operator_gt lhs rhs = operator_lt rhs lhs"

definition operator_ge :: "('a::ord) SimpleVector \<Rightarrow> 'a SimpleVector \<Rightarrow> error + bool" where
  "operator_ge lhs rhs = and_then (operator_lt lhs rhs) (\<lambda>b. Inr (\<not> b))"

text \<open>
  Copy assignment. The result is the target and \<open>rhs\<close> after the call; with \<open>same\<close> the
  two are one object and the call returns at once.
\<close>

definition copy_assign ::
  "'a \<Rightarrow> bool \<Rightarrow> 'a SimpleVector \<Rightarrow> 'a SimpleVector
   \<Rightarrow> error + ('a SimpleVector \<times> 'a SimpleVector)" where
  "copy_assign d same this rhs =
     and_then (operator_eq same this rhs) (\<lambda>eq.
       if eq then Inr (this, rhs)
       else and_then (SimpleVector_copy d rhs) (\<lambda>tmp.
              Inr (fst (swap_v this tmp), rhs)))"

text \<open>
  \<^verbatim>\<open>Resize(new_size)\<close> adopts a new block in its last branch (lines 309 to 319); the
  block the container had is released there.
  Modelled from the spec: a Buffer is destroyed when its owner is destroyed or replaced
  (\<^verbatim>\<open>array_ptr.h\<close> is not among the sources).
\<close>

definition Resize_replaces_block :: "nat \<Rightarrow> 'a SimpleVector \<Rightarrow> bool" where
  "Resize_replaces_block new_size v = (new_size \<ge> v_size v \<and> \<not> v_capacity v \<ge> new_size)"

text \<open>
  \<^verbatim>\<open>PushBack(const Type& item)\<close>: the reference is read after \<^verbatim>\<open>Resize\<close> has
  returned.
\<close>

definition PushBack :: "'a \<Rightarrow> 'a arg \<Rightarrow> 'a SimpleVector \<Rightarrow> error + 'a SimpleVector" where
  "PushBack d item v =
     and_then (Resize d (v_size v + 1) v) (\<lambda>v'.
     and_then (read_arg (Resize_replaces_block (v_size v + 1) v) (v_items v') item) (\<lambda>x.
     and_then (ArrayPtr_set (v_items v') (v_size v' - 1) x) (\<lambda>buf.
       Inr (v'\<lparr>v_items := buf\<rparr>))))"

text \<open>\<^verbatim>\<open>PushBack(Type&& item)\<close>: the same, and the item is moved from.\<close>

definition PushBack_move ::
  "('a \<Rightarrow> 'a) \<Rightarrow> 'a \<Rightarrow> 'a arg \<Rightarrow> 'a SimpleVector \<Rightarrow> error + 'a SimpleVector" where
  "PushBack_move mv d item v =
     and_then (Resize d (v_size v + 1) v) (\<lambda>v'.
     and_then (read_arg (Resize_replaces_block (v_size v + 1) v) (v_items v') item) (\<lambda>x.
     and_then (ArrayPtr_set (v_items v') (v_size v' - 1) x) (\<lambda>buf.
       Inr (v'\<lparr>v_items := leave_moved mv buf item\<rparr>))))"

text \<open>
  \<^verbatim>\<open>Insert(ConstIterator pos, const Type& value)\<close>, lines 365 to 390; the result is
  the container and the returned iterator. With spare capacity the first statement is
  \<^verbatim>\<open>std::copy_backward(pos_, end(), items_.Get() + std::next(this->end()))\<close>, whose
  destination adds two pointers: C++ gives it no meaning, and a call that selects this
  overload (one whose value is a named object) does not compile. The other two paths
  are as the source has them.
\<close>

definition Insert ::
  "'a \<Rightarrow> nat \<Rightarrow> 'a arg \<Rightarrow> 'a SimpleVector \<Rightarrow> error + ('a SimpleVector \<times> nat)" where
  "Insert d pos val v =
     (if \<not> (pos \<ge> begin_it v \<and> pos \<le> end_it v) then Inl Undefined
      else
        (let diffb = pos - begin_it v in
         if v_capacity v \<le> v_size v then
           (if v_capacity v = 0 then
              and_then (PushBack d val v) (\<lambda>v'. Inr (v', begin_it v'))
            else
              and_then (std_copy (v_items v) (begin_it v) pos
                                 (ArrayPtr d (v_capacity v * 2)) 0) (\<lambda>tmp.
              and_then (read_arg False (v_items v) val) (\<lambda>x.
              and_then (ArrayPtr_set tmp diffb x) (\<lambda>tmp'.
              and_then (std_copy_backward (v_items v) pos (end_it v) tmp' (v_size v + 1))
                (\<lambda>tmp''.
                Inr (v\<lparr>v_size := v_size v + 1, v_capacity := v_capacity v * 2,
                        v_items := tmp''\<rparr>, diffb))))))
         else Inl IllFormed))"

text \<open>
  \<^verbatim>\<open>Insert(ConstIterator pos, Type&& value)\<close>, lines 392 to 417. The value is read
  where the source reads it: after the prefix has been moved out of the old block on the
  growing path, after the suffix has been shifted on the path with spare capacity.
\<close>

definition Insert_move ::
  "('a \<Rightarrow> 'a) \<Rightarrow> 'a \<Rightarrow> nat \<Rightarrow> 'a arg \<Rightarrow> 'a SimpleVector
   \<Rightarrow> error + ('a SimpleVector \<times> nat)" where
  "Insert_move mv d pos val v =
     (if \<not> (pos \<ge> begin_it v \<and> pos \<le> end_it v) then Inl Undefined
      else
        (let diffb = pos - begin_it v in
         if v_capacity v \<le> v_size v then
           (if v_capacity v = 0 then
              and_then (PushBack_move mv d val v) (\<lambda>v'. Inr (v', begin_it v'))
            else
              and_then (std_move mv (v_items v) (begin_it v) pos
                                 (ArrayPtr d (v_capacity v * 2)) 0) (\<lambda>(old, tmp).
              and_then (read_arg False old val) (\<lambda>x.
              and_then (ArrayPtr_set tmp diffb x) (\<lambda>tmp'.
              and_then (std_move_backward mv (leave_moved mv old val) pos (end_it v)
                                          tmp' (v_size v + 1)) (\<lambda>(old', tmp'').
                Inr (v\<lparr>v_size := v_size v + 1, v_capacity := v_capacity v * 2,
                        v_items := tmp''\<rparr>, diffb))))))
         else
           and_then (std_move_backward_within mv (v_items v) pos (end_it v) (Suc (end_it v)))
             (\<lambda>buf.
           and_then (read_arg False buf val) (\<lambda>x.
           and_then (ArrayPtr_set buf diffb x) (\<lambda>buf'.
             Inr (v\<lparr>v_items := leave_moved mv buf' val, v_size := v_size v + 1\<rparr>, diffb))))))"

definition PopBack :: "'a SimpleVector \<Rightarrow> error + 'a SimpleVector" where
  "PopBack v = (if IsEmpty v then Inl Undefined else Inr (v\<lparr>v_size := v_size v - 1\<rparr>))"

text \<open>
  \<^verbatim>\<open>Erase(ConstIterator pos)\<close>, which copies the tail one slot to the left; the result
  is the container and the returned iterator.
\<close>

definition Erase :: "nat \<Rightarrow> 'a SimpleVector \<Rightarrow> error + ('a SimpleVector \<times> nat)" where
  "Erase pos v =
     (if \<not> (pos \<ge> begin_it v \<and> pos < end_it v) then Inl Undefined
      else if IsEmpty v then Inl Undefined
      else and_then (std_copy_within (v_items v) (pos + 1) (end_it v) pos) (\<lambda>buf.
             Inr (v\<lparr>v_items := buf, v_size := v_size v - 1\<rparr>, pos)))"

text \<open>\<^verbatim>\<open>Erase(Iterator pos)\<close>, which moves the tail.\<close>

definition Erase_move ::
  "('a \<Rightarrow> 'a) \<Rightarrow> nat \<Rightarrow> 'a SimpleVector \<Rightarrow> error + ('a SimpleVector \<times> nat)" where
  "Erase_move mv pos v =
     (if \<not> (pos \<ge> begin_it v \<and> pos < end_it v) then Inl Undefined
      else if IsEmpty v then Inl Undefined
      else and_then (std_move_within mv (v_items v) (Suc pos) (end_it v) pos) (\<lambda>buf.
             Inr (v\<lparr>v_items := buf, v_size := v_size v - 1\<rparr>, pos)))"

subsection \<open>What a caller observes\<close>

text \<open>
  The data model of the container: the size does not exceed the capacity, and the
  capacity does not exceed the allocated count of the block.
\<close>

definition valid :: "'a SimpleVector \<Rightarrow> bool" where
  "valid v = (v_size v \<le> v_capacity v \<and> v_capacity v \<le> length (v_items v))"

text \<open>The live elements, at the positions \<open>[0, size)\<close>.\<close>

definition elements :: "'a SimpleVector \<Rightarrow> 'a list" where
  "elements v = take (v_size v) (v_items v)"

section \<open>Auxiliary lemmas: what each operation computes\<close>

lemma and_then_Inr [simp]: "and_then (Inr x) f = f x"
  by (simp add: and_then_def)

lemma and_then_Inl [simp]: "and_then (Inl e) f = Inl e"
  by (simp add: and_then_def)

lemma read_range_ok:
  "first_i \<le> last_i \<Longrightarrow> last_i \<le> length buf \<Longrightarrow>
   read_range buf first_i last_i = Inr (take (last_i - first_i) (drop first_i buf))"
  by (simp add: read_range_def)

lemma write_range_ok:
  "k + length xs \<le> length buf \<Longrightarrow>
   write_range buf k xs = Inr (take k buf @ xs @ drop (k + length xs) buf)"
  by (simp add: write_range_def)

lemma fill_loop_ok:
  "i \<le> n \<Longrightarrow> n \<le> length buf \<Longrightarrow>
   fill_loop x buf i n = Inr (take i buf @ replicate (n - i) x @ drop n buf)"
proof (induction x buf i n rule: fill_loop.induct)
  case (1 x buf i n)
  show ?case
  proof (cases "i < n")
    case False
    with "1.prems" have "i = n" by simp
    then show ?thesis by (simp add: fill_loop.simps [of x buf n n])
  next
    case True
    with "1.prems" have il: "i < length buf" by simp
    have set: "ArrayPtr_set buf i x = Inr (buf[i := x])"
      using il by (simp add: ArrayPtr_set_def)
    have "fill_loop x buf i n = fill_loop x (buf[i := x]) (Suc i) n"
      using True set by (simp add: fill_loop.simps [of x buf i n])
    also have "\<dots> = Inr (take (Suc i) (buf[i := x]) @ replicate (n - Suc i) x
                          @ drop n (buf[i := x]))"
      using "1.IH" [OF True set] True "1.prems" by simp
    also have "take (Suc i) (buf[i := x]) = take i buf @ [x]"
      using il by (simp add: take_Suc_conv_app_nth)
    also have "drop n (buf[i := x]) = drop n buf"
      using True by simp
    also have "(take i buf @ [x]) @ replicate (n - Suc i) x @ drop n buf
               = take i buf @ replicate (n - i) x @ drop n buf"
      using True by (simp add: Suc_diff_Suc replicate_Suc [symmetric] del: replicate_Suc)
    finally show ?thesis .
  qed
qed

lemma fill_move_loop_fixed:
  "mv val = val \<Longrightarrow> fill_move_loop mv val buf i n = fill_loop val buf i n"
proof (induction mv val buf i n rule: fill_move_loop.induct)
  case (1 mv val buf i n)
  show ?case
  proof (cases "i < n")
    case False
    then show ?thesis
      by (simp add: fill_move_loop.simps [of mv val buf i n] fill_loop.simps [of val buf i n])
  next
    case True
    show ?thesis
    proof (cases "ArrayPtr_set buf i val")
      case (Inl e)
      then show ?thesis
        using True
        by (simp add: fill_move_loop.simps [of mv val buf i n] fill_loop.simps [of val buf i n])
    next
      case (Inr buf')
      have "fill_move_loop mv (mv val) buf' (Suc i) n = fill_loop (mv val) buf' (Suc i) n"
        using "1.IH" [OF True Inr] "1.prems" by simp
      then show ?thesis
        using True Inr "1.prems"
        by (simp add: fill_move_loop.simps [of mv val buf i n] fill_loop.simps [of val buf i n])
    qed
  qed
qed

lemma SimpleVector_n_ok:
  "SimpleVector_n d n = Inr \<lparr>v_items = replicate n d, v_size = n, v_capacity = n\<rparr>"
  by (simp add: SimpleVector_n_def SimpleVector_fill_move_def ArrayPtr_def fill_move_loop_fixed
      fill_loop_ok)

lemma std_copy_ok:
  "first_i \<le> last_i \<Longrightarrow> last_i \<le> length src \<Longrightarrow> k + (last_i - first_i) \<le> length dst \<Longrightarrow>
   std_copy src first_i last_i dst k
   = Inr (take k dst @ take (last_i - first_i) (drop first_i src) @ drop (k + (last_i - first_i)) dst)"
  by (simp add: std_copy_def read_range_ok write_range_ok min_absorb2)

lemma Resize_shrink:
  "n < v_size v \<Longrightarrow> Resize d n v = Inr (v\<lparr>v_size := n\<rparr>)"
  by (simp add: Resize_def)

lemma Resize_in_place:
  assumes "v_size v \<le> n" and "n \<le> v_capacity v" and "v_capacity v \<le> length (v_items v)"
  shows "Resize d n v
         = Inr (v\<lparr>v_items := take (v_size v) (v_items v) @ replicate (n - v_size v) d
                             @ drop n (v_items v),
                  v_size := n\<rparr>)"
proof -
  have "fill_loop d (v_items v) (v_size v) n
        = Inr (take (v_size v) (v_items v) @ replicate (n - v_size v) d @ drop n (v_items v))"
    using assms by (intro fill_loop_ok) simp_all
  then show ?thesis
    using assms by (simp add: Resize_def)
qed

lemma Resize_grow:
  assumes "v_size v \<le> v_capacity v" and "v_size v \<le> length (v_items v)"
    and "v_capacity v < n"
  shows "Resize d n v
         = Inr (v\<lparr>v_items := take (v_size v) (v_items v)
                             @ replicate (max (v_capacity v * 2) n - v_size v) d,
                  v_size := n,
                  v_capacity := max (v_capacity v * 2) n\<rparr>)"
proof -
  define s where "s = v_size v"
  define m where "m = max (v_capacity v * 2) n"
  have sn: "s \<le> n" and nm: "n \<le> m" and sl: "s \<le> length (v_items v)"
    using assms by (simp_all add: s_def m_def)
  have copy: "std_copy (v_items v) 0 s (replicate m d) 0
              = Inr (take s (v_items v) @ replicate (m - s) d)"
    using sn nm sl by (simp add: std_copy_ok)
  have fill: "fill_loop d (take s (v_items v) @ replicate (m - s) d) s n
              = Inr (take s (v_items v) @ replicate (m - s) d)"
  proof -
    have "fill_loop d (take s (v_items v) @ replicate (m - s) d) s n
          = Inr (take s (take s (v_items v) @ replicate (m - s) d) @ replicate (n - s) d
                 @ drop n (take s (v_items v) @ replicate (m - s) d))"
      using sn nm sl by (intro fill_loop_ok) simp_all
    also have "take s (take s (v_items v) @ replicate (m - s) d) = take s (v_items v)"
      using sl by simp
    also have "drop n (take s (v_items v) @ replicate (m - s) d) = replicate (m - n) d"
      using sn nm sl by (simp add: min_absorb2)
    also have "replicate (n - s) d @ replicate (m - n) d = replicate (m - s) d"
      using sn nm by (simp add: replicate_add [symmetric])
    finally show ?thesis .
  qed
  show ?thesis
    using assms copy fill
    by (simp add: Resize_def SimpleVector_n_ok begin_it_def end_it_def move_assign_def
        s_def [symmetric] m_def [symmetric])
qed

lemma PushBack_spare:
  assumes "v_size v < v_capacity v" and "v_capacity v \<le> length (v_items v)"
  shows "PushBack d (Value x) v
         = Inr (v\<lparr>v_items := (v_items v)[v_size v := x], v_size := v_size v + 1\<rparr>)"
proof -
  let ?s = "v_size v"
  have r: "Resize d (?s + 1) v
           = Inr (v\<lparr>v_items := take ?s (v_items v) @ replicate (?s + 1 - ?s) d
                                @ drop (?s + 1) (v_items v),
                    v_size := ?s + 1\<rparr>)"
    using assms by (intro Resize_in_place) simp_all
  have l: "take ?s (v_items v) @ d # drop (Suc ?s) (v_items v) = (v_items v)[?s := d]"
    using assms by (simp add: upd_conv_take_nth_drop)
  show ?thesis
    unfolding PushBack_def r using assms l by (simp add: ArrayPtr_set_def read_arg_def)
qed

lemma PushBack_full:
  assumes "v_size v = v_capacity v" and "v_capacity v \<le> length (v_items v)"
  shows "PushBack d (Value x) v
         = Inr (v\<lparr>v_items := take (v_size v) (v_items v) @ x
                             # replicate (max (v_capacity v * 2) (v_size v + 1) - v_size v - 1) d,
                  v_size := v_size v + 1,
                  v_capacity := max (v_capacity v * 2) (v_size v + 1)\<rparr>)"
proof -
  let ?s = "v_size v"
  let ?m = "max (v_capacity v * 2) (?s + 1)"
  have r: "Resize d (?s + 1) v
           = Inr (v\<lparr>v_items := take ?s (v_items v) @ replicate (?m - ?s) d,
                    v_size := ?s + 1, v_capacity := ?m\<rparr>)"
    using assms by (intro Resize_grow) simp_all
  have len: "length (take ?s (v_items v)) = ?s"
    using assms by simp
  have "(take ?s (v_items v) @ replicate (?m - ?s) d)[?s := x]
        = take ?s (v_items v) @ (replicate (?m - ?s) d)[0 := x]"
    using len by (simp add: list_update_append)
  also have "(replicate (?m - ?s) d)[0 := x] = x # replicate (?m - ?s - 1) d"
    by (cases "?m - ?s") simp_all
  finally have u: "(take ?s (v_items v) @ replicate (?m - ?s) d)[?s := x]
                   = take ?s (v_items v) @ x # replicate (?m - ?s - 1) d" .
  have lt: "?s < length (take ?s (v_items v) @ replicate (?m - ?s) d)"
    using len by simp
  show ?thesis
    unfolding PushBack_def r using lt u by (simp add: ArrayPtr_set_def read_arg_def)
qed

lemma PushBack_move_Value: "PushBack_move mv d (Value x) v = PushBack d (Value x) v"
  by (simp add: PushBack_move_def PushBack_def leave_moved_def)

lemma Erase_ok:
  assumes "p < v_size v" and "v_size v \<le> length (v_items v)"
  shows "Erase p v
         = Inr (v\<lparr>v_items := take p (v_items v)
                             @ take (v_size v - Suc p) (drop (Suc p) (v_items v))
                             @ drop (v_size v - 1) (v_items v),
                  v_size := v_size v - 1\<rparr>, p)"
proof -
  let ?s = "v_size v"
  let ?xs = "v_items v"
  have rd: "read_range ?xs (p + 1) ?s = Inr (take (?s - Suc p) (drop (Suc p) ?xs))"
    using assms by (simp add: read_range_def)
  have len: "length (take (?s - Suc p) (drop (Suc p) ?xs)) = ?s - Suc p"
    using assms by simp
  have wr: "write_range ?xs p (take (?s - Suc p) (drop (Suc p) ?xs))
            = Inr (take p ?xs @ take (?s - Suc p) (drop (Suc p) ?xs) @ drop (?s - 1) ?xs)"
  proof -
    have "p + (?s - Suc p) = ?s - 1" using assms by simp
    then show ?thesis
      unfolding write_range_def len using assms by simp
  qed
  have cp: "std_copy_within ?xs (p + 1) ?s p
            = Inr (take p ?xs @ take (?s - Suc p) (drop (Suc p) ?xs) @ drop (?s - 1) ?xs)"
    unfolding std_copy_within_def rd using wr by simp
  show ?thesis
    unfolding Erase_def begin_it_def end_it_def cp using assms by (simp add: IsEmpty_def)
qed

lemma length_moved_from:
  "first_i \<le> last_i \<Longrightarrow> last_i \<le> length buf
   \<Longrightarrow> length (moved_from mv buf first_i last_i) = length buf"
  by (simp add: moved_from_def)

lemma take_moved_from:
  "k \<le> first_i \<Longrightarrow> first_i \<le> length buf
   \<Longrightarrow> take k (moved_from mv buf first_i last_i) = take k buf"
  by (simp add: moved_from_def min_absorb2)

lemma drop_moved_from:
  "first_i \<le> last_i \<Longrightarrow> last_i \<le> k \<Longrightarrow> last_i \<le> length buf
   \<Longrightarrow> drop k (moved_from mv buf first_i last_i) = drop k buf"
  by (simp add: moved_from_def min_absorb2)

lemma Insert_move_spare:
  assumes "p \<le> v_size v" and "v_size v < v_capacity v"
    and "v_capacity v \<le> length (v_items v)"
  shows "Insert_move mv d p (Value x) v
         = Inr (v\<lparr>v_items := take p (v_items v) @ x
                             # take (v_size v - p) (drop p (v_items v))
                             @ drop (Suc (v_size v)) (v_items v),
                  v_size := v_size v + 1\<rparr>, p)"
proof -
  let ?s = "v_size v"
  let ?xs = "v_items v"
  let ?mid = "take (?s - p) (drop p ?xs)"
  define B where "B = moved_from mv ?xs p ?s"
  have lB: "length B = length ?xs"
    unfolding B_def using assms by (intro length_moved_from) simp_all
  have tB: "take p B = take p ?xs"
    unfolding B_def using assms by (intro take_moved_from) simp_all
  have dB: "drop (Suc ?s) B = drop (Suc ?s) ?xs"
    unfolding B_def using assms by (intro drop_moved_from) simp_all
  have rd: "read_range ?xs p ?s = Inr ?mid"
    using assms by (simp add: read_range_def)
  have len: "length ?mid = ?s - p"
    using assms by simp
  have k: "Suc ?s - (?s - p) = Suc p"
    using assms by simp
  have wr: "write_range B (Suc p) ?mid = Inr (take (Suc p) B @ ?mid @ drop (Suc ?s) B)"
  proof -
    have "Suc p + (?s - p) = Suc ?s" using assms by simp
    then show ?thesis
      unfolding write_range_def len using assms lB by simp
  qed
  have mb: "std_move_backward_within mv ?xs p ?s (Suc ?s)
            = Inr (take (Suc p) B @ ?mid @ drop (Suc ?s) B)"
    unfolding std_move_backward_within_def rd k B_def [symmetric] using wr by simp
  have pl: "p < length B"
    using assms lB by simp
  have "(take (Suc p) B @ ?mid @ drop (Suc ?s) B)[p := x]
        = take p B @ x # ?mid @ drop (Suc ?s) B"
    using pl by (simp add: take_Suc_conv_app_nth list_update_append)
  then have upd: "(take (Suc p) B @ ?mid @ drop (Suc ?s) B)[p := x]
                  = take p ?xs @ x # ?mid @ drop (Suc ?s) ?xs"
    using tB dB by simp
  have st: "ArrayPtr_set (take (Suc p) B @ ?mid @ drop (Suc ?s) B) p x
            = Inr (take p ?xs @ x # ?mid @ drop (Suc ?s) ?xs)"
    unfolding ArrayPtr_set_def upd using pl by simp
  have c: "\<not> v_capacity v \<le> v_size v"
    using assms by simp
  show ?thesis
    unfolding Insert_move_def begin_it_def end_it_def Let_def mb
    using assms(1) c st by (simp add: read_arg_def leave_moved_def)
qed

lemma Insert_move_full:
  assumes "p \<le> v_size v" and "v_size v = v_capacity v" and "0 < v_capacity v"
    and "v_capacity v \<le> length (v_items v)"
  shows "Insert_move mv d p (Value x) v
         = Inr (v\<lparr>v_size := v_size v + 1, v_capacity := v_capacity v * 2,
                  v_items := take p (v_items v) @ x
                             # take (v_size v - p) (drop p (v_items v))
                             @ replicate (v_capacity v * 2 - Suc (v_size v)) d\<rparr>, p)"
proof -
  let ?s = "v_size v"
  let ?xs = "v_items v"
  let ?c2 = "v_capacity v * 2"
  let ?mid = "take (?s - p) (drop p ?xs)"
  define old where "old = moved_from mv ?xs 0 p"
  have s2: "Suc ?s \<le> ?c2" and p2: "p < ?c2" and pl: "p \<le> length ?xs"
    using assms by simp_all
  have lo: "length old = length ?xs"
    unfolding old_def using pl by (intro length_moved_from) simp_all
  have dold: "drop p old = drop p ?xs"
    unfolding old_def using pl by (intro drop_moved_from) simp_all
  have cp: "std_move mv ?xs 0 p (ArrayPtr d ?c2) 0
            = Inr (old, take p ?xs @ replicate (?c2 - p) d)"
    unfolding std_move_def old_def using pl p2 by (simp add: std_copy_ok ArrayPtr_def)
  have st: "ArrayPtr_set (take p ?xs @ replicate (?c2 - p) d) p x
            = Inr (take p ?xs @ x # replicate (?c2 - Suc p) d)"
  proof -
    have "(replicate (?c2 - p) d)[0 := x] = x # replicate (?c2 - Suc p) d"
      using p2 by (cases "?c2 - p") simp_all
    then show ?thesis
      using pl p2 by (simp add: ArrayPtr_set_def list_update_append)
  qed
  have rd: "read_range old p ?s = Inr ?mid"
    using assms lo dold by (simp add: read_range_def)
  have len: "length ?mid = ?s - p"
    using assms by simp
  have k: "?s + 1 - (?s - p) = Suc p"
    using assms by simp
  have wr: "write_range (take p ?xs @ x # replicate (?c2 - Suc p) d) (Suc p) ?mid
            = Inr (take p ?xs @ x # ?mid @ replicate (?c2 - Suc ?s) d)"
  proof -
    have e: "Suc p + (?s - p) = Suc ?s" using assms by simp
    have "?c2 - Suc p - (?s - p) = ?c2 - Suc ?s" using assms by simp
    moreover have "Suc ?s - p = Suc (?s - p)" using assms by simp
    ultimately show ?thesis
      unfolding write_range_def len e using pl s2 assms(1) by (simp add: min_absorb2)
  qed
  have bw: "std_move_backward mv old p ?s (take p ?xs @ x # replicate (?c2 - Suc p) d) (?s + 1)
            = Inr (moved_from mv old p ?s, take p ?xs @ x # ?mid @ replicate (?c2 - Suc ?s) d)"
    unfolding std_move_backward_def std_copy_backward_def rd k using wr by simp
  have c: "v_capacity v \<le> v_size v" "v_capacity v \<noteq> 0"
    using assms by simp_all
  show ?thesis
    unfolding Insert_move_def begin_it_def end_it_def Let_def cp
    using assms(1) c st bw by (simp add: read_arg_def leave_moved_def)
qed

subsection \<open>The operations on the live elements\<close>

lemma elements_length: "v_size v \<le> length (v_items v) \<Longrightarrow> length (elements v) = v_size v"
  by (simp add: elements_def)

lemma PushBack_result:
  assumes "valid v"
  shows "\<exists>v'. PushBack d (Value x) v = Inr v' \<and> valid v'
          \<and> v_size v' = v_size v + 1
          \<and> elements v' = elements v @ [x]
          \<and> v_capacity v' = (if v_size v < v_capacity v then v_capacity v
                              else max (v_capacity v * 2) (v_size v + 1))"
proof (cases "v_size v < v_capacity v")
  case True
  with assms have l: "v_size v < length (v_items v)" and c: "v_capacity v \<le> length (v_items v)"
    by (simp_all add: valid_def)
  have "PushBack d (Value x) v
        = Inr (v\<lparr>v_items := (v_items v)[v_size v := x], v_size := v_size v + 1\<rparr>)"
    using True c by (rule PushBack_spare)
  then show ?thesis
    using True l c by (simp add: elements_def take_Suc_conv_app_nth valid_def)
next
  case False
  with assms have e: "v_size v = v_capacity v" and c: "v_capacity v \<le> length (v_items v)"
    by (simp_all add: valid_def)
  have "PushBack d (Value x) v
         = Inr (v\<lparr>v_items := take (v_size v) (v_items v) @ x
                             # replicate (max (v_capacity v * 2) (v_size v + 1) - v_size v - 1) d,
                  v_size := v_size v + 1,
                  v_capacity := max (v_capacity v * 2) (v_size v + 1)\<rparr>)"
    using e c by (rule PushBack_full)
  then show ?thesis
    using False e c by (simp add: elements_def valid_def)
qed

lemma Insert_move_empty:
  assumes "valid v" and "v_capacity v = 0" and "p \<le> v_size v"
  shows "\<exists>v'. Insert_move mv d p (Value x) v = Inr (v', p) \<and> valid v' \<and> v_size v' = v_size v + 1
          \<and> elements v' = elements v @ [x] \<and> v_capacity v' = 1"
proof -
  from assms have s: "v_size v = 0" and p: "p = 0"
    by (simp_all add: valid_def)
  from PushBack_result [OF assms(1), of d x] obtain v' where
    pb: "PushBack d (Value x) v = Inr v'" and va: "valid v'" and sz: "v_size v' = v_size v + 1"
    and el: "elements v' = elements v @ [x]"
    and cp: "v_capacity v' = (if v_size v < v_capacity v then v_capacity v
                              else max (v_capacity v * 2) (v_size v + 1))"
    by blast
  have "Insert_move mv d p (Value x) v = Inr (v', p)"
    using assms(2) s p pb
    by (simp add: Insert_move_def PushBack_move_Value begin_it_def end_it_def)
  then show ?thesis
    using va sz el cp s assms(2) by simp
qed

lemma Insert_move_result:
  assumes "valid v" and "p \<le> v_size v"
  shows "\<exists>v'. Insert_move mv d p (Value x) v = Inr (v', p) \<and> valid v'
          \<and> v_size v' = v_size v + 1
          \<and> elements v' = take p (elements v) @ x # drop p (elements v)
          \<and> v_capacity v' = (if v_size v < v_capacity v then v_capacity v
                              else if v_capacity v = 0 then 1 else v_capacity v * 2)"
proof -
  from assms have c: "v_capacity v \<le> length (v_items v)"
    and l: "v_size v \<le> length (v_items v)" and pl: "p \<le> length (v_items v)"
    by (simp_all add: valid_def)
  have mid: "drop p (elements v) = take (v_size v - p) (drop p (v_items v))"
    by (simp add: elements_def drop_take)
  have pre: "take p (elements v) = take p (v_items v)"
    using assms(2) by (simp add: elements_def min_absorb1)
  consider (spare) "v_size v < v_capacity v"
    | (full) "v_size v = v_capacity v" "0 < v_capacity v"
    | (empty) "v_capacity v = 0"
    using assms(1) unfolding valid_def by linarith
  then show ?thesis
  proof cases
    case spare
    have "Insert_move mv d p (Value x) v
         = Inr (v\<lparr>v_items := take p (v_items v) @ x
                             # take (v_size v - p) (drop p (v_items v))
                             @ drop (Suc (v_size v)) (v_items v),
                  v_size := v_size v + 1\<rparr>, p)"
      using assms(2) spare c by (rule Insert_move_spare)
    then show ?thesis
      using spare pl l c assms(2)
      by (simp add: elements_def drop_take min_absorb1 min_absorb2 Suc_diff_le valid_def)
  next
    case full
    have "Insert_move mv d p (Value x) v
         = Inr (v\<lparr>v_size := v_size v + 1, v_capacity := v_capacity v * 2,
                  v_items := take p (v_items v) @ x
                             # take (v_size v - p) (drop p (v_items v))
                             @ replicate (v_capacity v * 2 - Suc (v_size v)) d\<rparr>, p)"
      using assms(2) full c by (rule Insert_move_full)
    then show ?thesis
      using full pl l c assms(2)
      by (simp add: elements_def drop_take min_absorb1 min_absorb2 Suc_diff_le valid_def)
  next
    case empty
    from assms have s: "v_size v = 0" and p: "p = 0"
      using empty by (simp_all add: valid_def)
    show ?thesis
      using Insert_move_empty [OF assms(1) empty assms(2), of mv d x] empty s p
      by (simp add: elements_def)
  qed
qed

lemma Erase_result:
  assumes "p < v_size v" and "v_size v \<le> length (v_items v)"
  shows "\<exists>v'. Erase p v = Inr (v', p) \<and> v_size v' = v_size v - 1
          \<and> v_capacity v' = v_capacity v
          \<and> elements v' = take p (elements v) @ drop (Suc p) (elements v)"
proof -
  have "Erase p v
         = Inr (v\<lparr>v_items := take p (v_items v)
                             @ take (v_size v - Suc p) (drop (Suc p) (v_items v))
                             @ drop (v_size v - 1) (v_items v),
                  v_size := v_size v - 1\<rparr>, p)"
    using assms by (rule Erase_ok)
  then show ?thesis
    using assms by (simp add: elements_def drop_take min_absorb1 min_absorb2)
qed

lemma SimpleVector_move_ok:
  assumes "v_size b \<le> length (v_items b)"
  shows "SimpleVector_move d b
         = Inr (\<lparr>v_items = take (v_size b) (v_items b), v_size = v_size b,
                  v_capacity = v_capacity b\<rparr>,
                b\<lparr>v_size := 0, v_capacity := 0\<rparr>)"
proof -
  have "std_copy (v_items b) 0 (v_size b) (replicate (v_size b) d) 0
        = Inr (take (v_size b) (v_items b))"
    using assms by (simp add: std_copy_ok)
  then show ?thesis
    by (simp add: SimpleVector_move_def GetSize_def GetCapacity_def begin_it_def end_it_def
        ArrayPtr_def)
qed

subsection \<open>Copying and comparing\<close>

lemma SimpleVector_copy_ok:
  assumes "v_size b \<le> length (v_items b)"
  shows "SimpleVector_copy d b
         = Inr \<lparr>v_items = take (v_size b) (v_items b), v_size = v_size b,
                 v_capacity = v_capacity b\<rparr>"
proof -
  have "std_copy (v_items b) 0 (v_size b) (replicate (v_size b) d) 0
        = Inr (take (v_size b) (v_items b))"
    using assms by (simp add: std_copy_ok)
  then show ?thesis
    by (simp add: SimpleVector_copy_def GetSize_def GetCapacity_def begin_it_def end_it_def
        SimpleVector_n_ok)
qed

lemma operator_eq_ok:
  assumes "v_size a \<le> length (v_items a)" and "v_size b \<le> length (v_items b)"
  shows "operator_eq False a b = Inr (elements a = elements b)"
proof (cases "v_size a = v_size b")
  case True
  then show ?thesis
    using assms
    by (simp add: operator_eq_def std_equal_def begin_it_def end_it_def read_range_def
        elements_def)
next
  case False
  have "length (elements a) \<noteq> length (elements b)"
    using False assms by (simp add: elements_length)
  then have "elements a \<noteq> elements b"
    by auto
  then show ?thesis
    using False by (simp add: operator_eq_def std_equal_def begin_it_def end_it_def)
qed

lemma copy_assign_ok:
  assumes "v_size a \<le> length (v_items a)" and "v_size b \<le> length (v_items b)"
    and "same \<longrightarrow> a = b"
  shows "copy_assign d same a b
         = Inr (if elements a = elements b then a
                else \<lparr>v_items = take (v_size b) (v_items b), v_size = v_size b,
                       v_capacity = v_capacity b\<rparr>, b)"
proof (cases same)
  case True
  with assms(3) show ?thesis
    by (simp add: copy_assign_def operator_eq_def)
next
  case False
  have eq: "operator_eq same a b = Inr (elements a = elements b)"
    using False operator_eq_ok [OF assms(1,2)] by simp
  show ?thesis
    unfolding copy_assign_def eq
    by (simp add: SimpleVector_copy_ok [OF assms(2)] swap_v_def)
qed

lemma SimpleVector_copy_equal:
  assumes "v_size v \<le> length (v_items v)"
  shows "\<exists>w. SimpleVector_copy d v = Inr w
          \<and> operator_eq False w v = Inr True
          \<and> v_size w = v_size v \<and> elements w = elements v
          \<and> v_capacity w = v_capacity v"
proof -
  let ?w = "\<lparr>v_items = take (v_size v) (v_items v), v_size = v_size v,
             v_capacity = v_capacity v\<rparr>"
  have c: "SimpleVector_copy d v = Inr ?w"
    using assms by (rule SimpleVector_copy_ok)
  have l: "v_size ?w \<le> length (v_items ?w)"
    using assms by simp
  have e: "elements ?w = elements v"
    by (simp add: elements_def)
  have "operator_eq False ?w v = Inr True"
    using operator_eq_ok [OF l assms] e by simp
  then show ?thesis
    using c e by simp
qed

subsection \<open>Where the out-of-range error can come from\<close>

lemma and_then_throws:
  "and_then m f = Inl OutOfRange
   \<longleftrightarrow> m = Inl OutOfRange \<or> (\<exists>y. m = Inr y \<and> f y = Inl OutOfRange)"
  by (cases m) simp_all

lemma ArrayPtr_get_no_throw: "ArrayPtr_get buf i \<noteq> Inl OutOfRange"
  by (simp add: ArrayPtr_get_def)

lemma ArrayPtr_set_no_throw: "ArrayPtr_set buf i x \<noteq> Inl OutOfRange"
  by (simp add: ArrayPtr_set_def)

lemma read_range_no_throw: "read_range buf i j \<noteq> Inl OutOfRange"
  by (simp add: read_range_def)

lemma write_range_no_throw: "write_range buf k xs \<noteq> Inl OutOfRange"
  by (simp add: write_range_def)

lemma std_copy_no_throw: "std_copy src i j dst k \<noteq> Inl OutOfRange"
  by (simp add: std_copy_def and_then_throws read_range_no_throw write_range_no_throw)

lemma std_copy_backward_no_throw: "std_copy_backward src i j dst k \<noteq> Inl OutOfRange"
  by (simp add: std_copy_backward_def and_then_throws read_range_no_throw
      write_range_no_throw)

lemma std_copy_within_no_throw: "std_copy_within buf i j k \<noteq> Inl OutOfRange"
  by (simp add: std_copy_within_def and_then_throws read_range_no_throw write_range_no_throw)

lemma std_move_no_throw: "std_move mv src i j dst k \<noteq> Inl OutOfRange"
  by (simp add: std_move_def and_then_throws std_copy_no_throw)

lemma std_move_backward_no_throw: "std_move_backward mv src i j dst k \<noteq> Inl OutOfRange"
  by (simp add: std_move_backward_def and_then_throws std_copy_backward_no_throw)

lemma std_move_within_no_throw: "std_move_within mv buf i j k \<noteq> Inl OutOfRange"
  by (simp add: std_move_within_def and_then_throws read_range_no_throw write_range_no_throw)

lemma std_move_backward_within_no_throw:
  "std_move_backward_within mv buf i j k \<noteq> Inl OutOfRange"
  by (simp add: std_move_backward_within_def and_then_throws read_range_no_throw
      write_range_no_throw)

lemma read_arg_no_throw: "read_arg released buf a \<noteq> Inl OutOfRange"
  by (cases a) (simp_all add: read_arg_def ArrayPtr_get_no_throw)

lemma std_equal_no_throw: "std_equal a i j b k l \<noteq> Inl OutOfRange"
  by (simp add: std_equal_def and_then_throws read_range_no_throw)

lemma fill_loop_no_throw: "fill_loop x buf i n \<noteq> Inl OutOfRange"
proof (induction x buf i n rule: fill_loop.induct)
  case (1 x buf i n)
  show ?case
  proof (cases "i < n")
    case False
    then show ?thesis by (simp add: fill_loop.simps [of x buf i n])
  next
    case True
    show ?thesis
    proof (cases "ArrayPtr_set buf i x")
      case (Inl e)
      then have "e = Undefined"
        by (simp add: ArrayPtr_set_def split: if_splits)
      then show ?thesis
        using True Inl by (simp add: fill_loop.simps [of x buf i n])
    next
      case (Inr buf')
      then show ?thesis
        using True "1.IH" [OF True Inr] by (simp add: fill_loop.simps [of x buf i n])
    qed
  qed
qed

lemma fill_move_loop_no_throw: "fill_move_loop mv x buf i n \<noteq> Inl OutOfRange"
proof (induction mv x buf i n rule: fill_move_loop.induct)
  case (1 mv x buf i n)
  show ?case
  proof (cases "i < n")
    case False
    then show ?thesis by (simp add: fill_move_loop.simps [of mv x buf i n])
  next
    case True
    show ?thesis
    proof (cases "ArrayPtr_set buf i x")
      case (Inl e)
      then have "e = Undefined"
        by (simp add: ArrayPtr_set_def split: if_splits)
      then show ?thesis
        using True Inl by (simp add: fill_move_loop.simps [of mv x buf i n])
    next
      case (Inr buf')
      then show ?thesis
        using True "1.IH" [OF True Inr] by (simp add: fill_move_loop.simps [of mv x buf i n])
    qed
  qed
qed

lemma SimpleVector_n_no_throw: "SimpleVector_n d n \<noteq> Inl OutOfRange"
  by (simp add: SimpleVector_n_ok)

lemma SimpleVector_copy_no_throw: "SimpleVector_copy d v \<noteq> Inl OutOfRange"
  by (simp add: SimpleVector_copy_def Let_def and_then_throws SimpleVector_n_no_throw
      std_copy_no_throw)

lemma Resize_no_throw: "Resize d n v \<noteq> Inl OutOfRange"
  by (simp add: Resize_def Let_def and_then_throws SimpleVector_n_no_throw std_copy_no_throw
      fill_loop_no_throw)

lemma operator_eq_no_throw: "operator_eq same a b \<noteq> Inl OutOfRange"
  by (simp add: operator_eq_def std_equal_no_throw)

lemma operator_lt_no_throw: "operator_lt a b \<noteq> Inl OutOfRange"
  by (simp add: operator_lt_def and_then_throws read_range_no_throw)

lemma PushBack_no_throw: "PushBack d a v \<noteq> Inl OutOfRange"
  by (simp add: PushBack_def and_then_throws Resize_no_throw read_arg_no_throw
      ArrayPtr_set_no_throw)

lemma PushBack_move_no_throw: "PushBack_move mv d a v \<noteq> Inl OutOfRange"
  by (simp add: PushBack_move_def and_then_throws Resize_no_throw read_arg_no_throw
      ArrayPtr_set_no_throw)

subsection \<open>The operations that keep the data model\<close>

lemma valid_default: "valid SimpleVector_default"
  by (simp add: valid_def SimpleVector_default_def)

lemma valid_SimpleVector_n: "\<exists>v. SimpleVector_n d n = Inr v \<and> valid v"
  by (simp add: SimpleVector_n_ok valid_def)

lemma valid_SimpleVector_fill: "\<exists>v. SimpleVector_fill d n x = Inr v \<and> valid v"
  by (simp add: SimpleVector_fill_def std_fill_def ArrayPtr_def write_range_def valid_def)

lemma valid_SimpleVector_init: "\<exists>v. SimpleVector_init d xs = Inr v \<and> valid v"
  by (simp add: SimpleVector_init_def ArrayPtr_def std_copy_ok valid_def)

lemma valid_Clear: "valid v \<Longrightarrow> valid (Clear v)"
  by (simp add: valid_def Clear_def)

lemma valid_swap: "valid a \<Longrightarrow> valid b \<Longrightarrow> valid (fst (swap_v a b)) \<and> valid (snd (swap_v a b))"
  by (simp add: valid_def swap_v_def)

lemma valid_PopBack: "valid v \<Longrightarrow> PopBack v = Inr v' \<Longrightarrow> valid v'"
  by (auto simp: valid_def PopBack_def split: if_splits)

lemma valid_Resize:
  assumes "valid v"
  shows "\<exists>v'. Resize d n v = Inr v' \<and> valid v'"
proof -
  from assms have c: "v_capacity v \<le> length (v_items v)" and s: "v_size v \<le> v_capacity v"
    by (simp_all add: valid_def)
  consider (shrink) "n < v_size v" | (stay) "v_size v \<le> n" "n \<le> v_capacity v"
    | (grow) "v_capacity v < n"
    by linarith
  then show ?thesis
  proof cases
    case shrink
    then show ?thesis
      using c s by (simp add: Resize_shrink valid_def)
  next
    case stay
    then show ?thesis
      using c by (simp add: Resize_in_place valid_def)
  next
    case grow
    have l: "v_size v \<le> length (v_items v)"
      using c s by simp
    show ?thesis
      using grow s l by (simp add: Resize_grow [OF s l grow] valid_def)
  qed
qed

lemma valid_Reserve:
  assumes "valid v"
  shows "\<exists>v'. Reserve d n v = Inr v' \<and> valid v'"
proof (cases "v_capacity v < n")
  case True
  with assms have "v_size v \<le> length (v_items v)" and "v_size v \<le> n"
    by (simp_all add: valid_def)
  then show ?thesis
    using True by (simp add: Reserve_def ArrayPtr_def std_copy_ok valid_def)
next
  case False
  with assms show ?thesis
    by (simp add: Reserve_def)
qed

lemma valid_Erase:
  assumes "valid v" and "p < v_size v"
  shows "\<exists>v'. Erase p v = Inr (v', p) \<and> valid v'"
proof -
  from assms have l: "v_size v \<le> length (v_items v)"
    by (simp add: valid_def)
  define xs where "xs = take p (v_items v)
                        @ take (v_size v - Suc p) (drop (Suc p) (v_items v))
                        @ drop (v_size v - 1) (v_items v)"
  have len: "length xs = length (v_items v)"
    using assms(2) l by (simp add: xs_def)
  from assms(1) have sc: "v_size v - 1 \<le> v_capacity v"
    and cl: "v_capacity v \<le> length (v_items v)"
    unfolding valid_def by linarith+
  have "Erase p v = Inr (v\<lparr>v_items := xs, v_size := v_size v - 1\<rparr>, p)"
    unfolding xs_def using assms(2) l by (rule Erase_ok)
  then show ?thesis
    using sc cl len by (simp add: valid_def)
qed

subsection \<open>The block of a copy\<close>

text \<open>
  The copy constructor allocates as many slots as the source has elements and records the
  capacity of the source, so a copy of a container with spare capacity has a capacity
  above its allocated count: the next \<^verbatim>\<open>PushBack\<close> stores past the end of the block.
\<close>

lemma copy_block_has_size_slots:
  assumes "v_size v \<le> length (v_items v)"
  shows "\<exists>w. SimpleVector_copy d v = Inr w \<and> length (v_items w) = v_size v
          \<and> v_capacity w = v_capacity v"
  using assms by (simp add: SimpleVector_copy_ok)

subsection \<open>An item that is not an element of the container\<close>

text \<open>
  For an item outside the block, \<^verbatim>\<open>PushBack\<close> and the overload of \<^verbatim>\<open>Insert\<close> that
  moves its value do what the interface promises, on every container of the data model.
\<close>

lemma PushBack_Value_appends:
  assumes "valid v"
  shows "\<exists>v'. PushBack d (Value x) v = Inr v'
          \<and> v_size v' = v_size v + 1
          \<and> v_items v' ! (v_size v' - 1) = x
          \<and> take (v_size v) (v_items v') = take (v_size v) (v_items v)
          \<and> (v_size v = v_capacity v \<and> 0 < v_capacity v \<longrightarrow> v_capacity v' = 2 * v_capacity v)
          \<and> (v_capacity v = 0 \<longrightarrow> v_capacity v' = 1)
          \<and> (v_size v < v_capacity v \<longrightarrow> v_capacity v' = v_capacity v)"
proof -
  from PushBack_result [OF assms, of d x] obtain v' where
    pb: "PushBack d (Value x) v = Inr v'" and va: "valid v'" and sz: "v_size v' = v_size v + 1"
    and el: "elements v' = elements v @ [x]"
    and cp: "v_capacity v' = (if v_size v < v_capacity v then v_capacity v
                              else max (v_capacity v * 2) (v_size v + 1))"
    by blast
  from assms have l: "v_size v \<le> length (v_items v)"
    by (simp add: valid_def)
  from va sz have l': "v_size v < length (v_items v')"
    by (simp add: valid_def)
  have len: "length (elements v) = v_size v"
    using l by (rule elements_length)
  have "take (Suc (v_size v)) (v_items v') = take (v_size v) (v_items v) @ [x]"
    using el sz by (simp add: elements_def)
  then have "take (v_size v) (v_items v') @ [v_items v' ! v_size v]
             = take (v_size v) (v_items v) @ [x]"
    using l' by (simp add: take_Suc_conv_app_nth)
  then have pre: "take (v_size v) (v_items v') = take (v_size v) (v_items v)"
    and lst: "v_items v' ! v_size v = x"
    by simp_all
  have c0: "v_capacity v = 0 \<longrightarrow> v_capacity v' = 1"
    using cp assms by (auto simp: valid_def)
  have c1: "v_size v = v_capacity v \<and> 0 < v_capacity v \<longrightarrow> v_capacity v' = 2 * v_capacity v"
    using cp by (auto simp: max_def)
  have c2: "v_size v < v_capacity v \<longrightarrow> v_capacity v' = v_capacity v"
    using cp by simp
  show ?thesis
    using pb sz pre lst c0 c1 c2 by simp
qed

lemma PushBack_Value_then_PopBack:
  assumes "valid v"
  shows "\<exists>v1 v2. PushBack d (Value x) v = Inr v1 \<and> PopBack v1 = Inr v2
          \<and> v_size v2 = v_size v \<and> elements v2 = elements v"
proof -
  from PushBack_result [OF assms, of d x] obtain v1 where
    pb: "PushBack d (Value x) v = Inr v1" and sz: "v_size v1 = v_size v + 1"
    and el: "elements v1 = elements v @ [x]"
    by blast
  from assms have len: "length (elements v) = v_size v"
    by (intro elements_length) (simp add: valid_def)
  have pop: "PopBack v1 = Inr (v1\<lparr>v_size := v_size v\<rparr>)"
    using sz by (simp add: PopBack_def IsEmpty_def)
  have "take (v_size v) (take (v_size v1) (v_items v1)) = take (v_size v) (elements v @ [x])"
    using el by (simp add: elements_def)
  then have "elements (v1\<lparr>v_size := v_size v\<rparr>) = elements v"
    using sz len by (simp add: elements_def min_absorb1)
  then show ?thesis
    using pb pop by simp
qed

lemma Insert_move_Value_then_Erase:
  assumes "valid v" and "p \<le> v_size v"
  shows "\<exists>v1 v2. Insert_move mv d p (Value x) v = Inr (v1, p) \<and> Erase p v1 = Inr (v2, p)
          \<and> v_size v2 = v_size v \<and> elements v2 = elements v
          \<and> (v_size v < v_capacity v \<longrightarrow>
                v_capacity v1 = v_capacity v \<and> v_size v1 = v_size v + 1
                \<and> v_items v1 = take p (v_items v) @ x
                                # take (v_size v - p) (drop p (v_items v))
                                @ drop (Suc (v_size v)) (v_items v))"
proof -
  from assms have len: "length (elements v) = v_size v"
    by (intro elements_length) (simp add: valid_def)
  from Insert_move_result [OF assms, of mv d x] obtain v1 where
    ins: "Insert_move mv d p (Value x) v = Inr (v1, p)" and va: "valid v1" and s1: "v_size v1 = v_size v + 1"
    and e1: "elements v1 = take p (elements v) @ x # drop p (elements v)"
    by blast
  have p1: "p < v_size v1" and l1: "v_size v1 \<le> length (v_items v1)"
    using assms(2) s1 va by (simp_all add: valid_def)
  from Erase_result [OF p1 l1] obtain v2 where
    er: "Erase p v1 = Inr (v2, p)" and s2: "v_size v2 = v_size v1 - 1"
    and e2: "elements v2 = take p (elements v1) @ drop (Suc p) (elements v1)"
    by blast
  have lp: "length (take p (elements v)) = p"
    using assms(2) len by simp
  have "take p (elements v1) = take p (elements v)"
    unfolding e1 using lp by simp
  moreover have "drop (Suc p) (elements v1) = drop p (elements v)"
    unfolding e1 using lp by simp
  ultimately have e: "elements v2 = elements v"
    using e2 by simp
  have inplace: "v_size v < v_capacity v \<longrightarrow>
                v_capacity v1 = v_capacity v \<and> v_size v1 = v_size v + 1
                \<and> v_items v1 = take p (v_items v) @ x
                                # take (v_size v - p) (drop p (v_items v))
                                @ drop (Suc (v_size v)) (v_items v)"
  proof
    assume sp: "v_size v < v_capacity v"
    from assms(1) have "v_capacity v \<le> length (v_items v)"
      by (simp add: valid_def)
    from Insert_move_spare [OF assms(2) sp this, of mv d x] ins
    show "v_capacity v1 = v_capacity v \<and> v_size v1 = v_size v + 1
                \<and> v_items v1 = take p (v_items v) @ x
                                # take (v_size v - p) (drop p (v_items v))
                                @ drop (Suc (v_size v)) (v_items v)"
      by auto
  qed
  show ?thesis
    using ins er s1 s2 e inplace by simp
qed

lemma Insert_move_Value_at_end:
  assumes "valid v"
  shows "\<exists>v1 p v2. Insert_move mv d (end_it v) (Value x) v = Inr (v1, p) \<and> PushBack_move mv d (Value x) v = Inr v2
          \<and> v_size v1 = v_size v2 \<and> v_capacity v1 = v_capacity v2
          \<and> elements v1 = elements v2"
proof -
  from assms have len: "length (elements v) = v_size v"
    by (intro elements_length) (simp add: valid_def)
  from Insert_move_result [OF assms, of "v_size v" mv d x] obtain v1 where
    ins: "Insert_move mv d (v_size v) (Value x) v = Inr (v1, v_size v)" and s1: "v_size v1 = v_size v + 1"
    and e1: "elements v1 = take (v_size v) (elements v) @ x # drop (v_size v) (elements v)"
    and c1: "v_capacity v1 = (if v_size v < v_capacity v then v_capacity v
                              else if v_capacity v = 0 then 1 else v_capacity v * 2)"
    by auto
  from PushBack_result [OF assms, of d x] PushBack_move_Value [of mv d x v] obtain v2 where
    pb: "PushBack_move mv d (Value x) v = Inr v2" and s2: "v_size v2 = v_size v + 1"
    and e2: "elements v2 = elements v @ [x]"
    and c2: "v_capacity v2 = (if v_size v < v_capacity v then v_capacity v
                              else max (v_capacity v * 2) (v_size v + 1))"
    by auto
  have e: "elements v1 = elements v2"
    using e1 e2 len by simp
  have c: "v_capacity v1 = v_capacity v2"
    using c1 c2 assms by (auto simp: valid_def max_def)
  show ?thesis
    using ins pb s1 s2 e c by (simp add: end_it_def)
qed

subsection \<open>An item that is an element of the container\<close>

lemma PushBack_Element_full:
  assumes "v_size v = v_capacity v" and "v_capacity v \<le> length (v_items v)"
  shows "PushBack d (Element i) v = Inl Undefined"
proof -
  let ?s = "v_size v"
  let ?m = "max (v_capacity v * 2) (?s + 1)"
  have r: "Resize d (?s + 1) v
           = Inr (v\<lparr>v_items := take ?s (v_items v) @ replicate (?m - ?s) d,
                    v_size := ?s + 1, v_capacity := ?m\<rparr>)"
    using assms by (intro Resize_grow) simp_all
  have "Resize_replaces_block (?s + 1) v"
    using assms by (simp add: Resize_replaces_block_def)
  then show ?thesis
    unfolding PushBack_def r by (simp add: read_arg_def)
qed

lemma PushBack_Element_spare:
  assumes "v_size v < v_capacity v" and "v_capacity v \<le> length (v_items v)"
    and "i < v_size v"
  shows "PushBack d (Element i) v
         = Inr (v\<lparr>v_items := (v_items v)[v_size v := v_items v ! i],
                  v_size := v_size v + 1\<rparr>)"
proof -
  let ?s = "v_size v"
  have r: "Resize d (?s + 1) v
           = Inr (v\<lparr>v_items := take ?s (v_items v) @ replicate (?s + 1 - ?s) d
                                @ drop (?s + 1) (v_items v),
                    v_size := ?s + 1\<rparr>)"
    using assms by (intro Resize_in_place) simp_all
  have l: "take ?s (v_items v) @ d # drop (Suc ?s) (v_items v) = (v_items v)[?s := d]"
    using assms by (simp add: upd_conv_take_nth_drop)
  have n: "\<not> Resize_replaces_block (?s + 1) v"
    using assms by (simp add: Resize_replaces_block_def)
  show ?thesis
    unfolding PushBack_def r using assms l n
    by (simp add: ArrayPtr_set_def ArrayPtr_get_def read_arg_def)
qed

section \<open>Properties of the operations\<close>

text \<open>
  C1. The invariant \<open>size \<le> capacity\<close> after move assignment. Move-assigning the
  container built from \<open>{1, 2, 3}\<close> into a default-constructed one gives a target of
  size 3 and capacity 0.
\<close>

theorem move_assign_size_exceeds_capacity:
  "SimpleVector_init 0 [1, 2, 3 :: int]
     = Inr \<lparr>v_items = [1, 2, 3], v_size = 3, v_capacity = 3\<rparr>
   \<and> fst (move_assign SimpleVector_default
             \<lparr>v_items = [1, 2, 3 :: int], v_size = 3, v_capacity = 3\<rparr>)
     = \<lparr>v_items = [1, 2, 3], v_size = 3, v_capacity = 0\<rparr>
   \<and> \<not> v_size (fst (move_assign SimpleVector_default
                      \<lparr>v_items = [1, 2, 3 :: int], v_size = 3, v_capacity = 3\<rparr>))
       \<le> v_capacity (fst (move_assign SimpleVector_default
                      \<lparr>v_items = [1, 2, 3 :: int], v_size = 3, v_capacity = 3\<rparr>))"
  by (simp add: SimpleVector_init_def ArrayPtr_def std_copy_def read_range_def write_range_def
      move_assign_def SimpleVector_default_def)

text \<open>
  C2. The copy has the capacity of the allocated block, the size of the source. The copy
  of the container \<open>{1, 2, 3, 4}\<close> of capacity 6, which \<^verbatim>\<open>PushBack(4)\<close> makes of
  \<open>{1, 2, 3}\<close>, has a block of 4 slots and the capacity 6, and the next \<^verbatim>\<open>PushBack\<close>
  stores past the end of that block.
\<close>

theorem copy_capacity_exceeds_block:
  "PushBack 0 (Value 4) \<lparr>v_items = [1, 2, 3 :: int], v_size = 3, v_capacity = 3\<rparr>
     = Inr \<lparr>v_items = [1, 2, 3, 4, 0, 0], v_size = 4, v_capacity = 6\<rparr>
   \<and> SimpleVector_copy 0 \<lparr>v_items = [1, 2, 3, 4, 0, 0 :: int], v_size = 4, v_capacity = 6\<rparr>
     = Inr \<lparr>v_items = [1, 2, 3, 4], v_size = 4, v_capacity = 6\<rparr>
   \<and> GetCapacity \<lparr>v_items = [1, 2, 3, 4 :: int], v_size = 4, v_capacity = 6\<rparr>
     \<noteq> GetSize \<lparr>v_items = [1, 2, 3, 4, 0, 0 :: int], v_size = 4, v_capacity = 6\<rparr>
   \<and> PushBack 0 (Value 5) \<lparr>v_items = [1, 2, 3, 4 :: int], v_size = 4, v_capacity = 6\<rparr>
     = Inl Undefined"
proof -
  have "PushBack 0 (Value 4) \<lparr>v_items = [1, 2, 3 :: int], v_size = 3, v_capacity = 3\<rparr>
        = Inr \<lparr>v_items = [1, 2, 3, 4, 0, 0], v_size = 4, v_capacity = 6\<rparr>"
    by (simp add: PushBack_full numeral_eq_Suc)
  moreover have "SimpleVector_copy 0
                   \<lparr>v_items = [1, 2, 3, 4, 0, 0 :: int], v_size = 4, v_capacity = 6\<rparr>
        = Inr \<lparr>v_items = [1, 2, 3, 4], v_size = 4, v_capacity = 6\<rparr>"
    by (simp add: SimpleVector_copy_ok)
  moreover have "PushBack 0 (Value 5) \<lparr>v_items = [1, 2, 3, 4 :: int], v_size = 4, v_capacity = 6\<rparr>
                 = Inl Undefined"
  proof -
    have "fill_loop 0 [1, 2, 3, 4 :: int] 4 5 = Inl Undefined"
      by (simp add: fill_loop.simps [of 0 "[1, 2, 3, 4]" 4 5] ArrayPtr_set_def)
    then show ?thesis
      by (simp add: PushBack_def Resize_def)
  qed
  ultimately show ?thesis
    by (simp add: GetCapacity_def GetSize_def)
qed

text \<open>
  C3. \<^verbatim>\<open>Resize(n)\<close> on a container of size \<open>s\<close> and capacity \<open>c\<close>. For \<open>n < s\<close> the
  size becomes \<open>n\<close>, the capacity and the whole block (so every element of index below
  \<open>n\<close>) stay as they were. For \<open>s \<le> n \<le> c\<close> the size becomes \<open>n\<close>, the capacity and the
  elements \<open>[0, s)\<close> stay, and the positions \<open>[s, n)\<close> hold the default value. For
  \<open>n > c\<close> the size becomes \<open>n\<close>, the capacity \<open>max (2 * c) n\<close>, the first \<open>s\<close>
  elements are preserved and the positions \<open>[s, n)\<close> hold the default value.
\<close>

theorem Resize_cases:
  assumes "valid v"
  shows "(n < v_size v \<longrightarrow>
            (\<exists>v'. Resize d n v = Inr v' \<and> v_size v' = n \<and> v_capacity v' = v_capacity v
                  \<and> v_items v' = v_items v))
       \<and> (v_size v \<le> n \<and> n \<le> v_capacity v \<longrightarrow>
            (\<exists>v'. Resize d n v = Inr v' \<and> v_size v' = n \<and> v_capacity v' = v_capacity v
                  \<and> take (v_size v) (v_items v') = take (v_size v) (v_items v)
                  \<and> drop (v_size v) (take n (v_items v')) = replicate (n - v_size v) d))
       \<and> (v_capacity v < n \<longrightarrow>
            (\<exists>v'. Resize d n v = Inr v' \<and> v_size v' = n
                  \<and> v_capacity v' = max (2 * v_capacity v) n
                  \<and> take (v_size v) (v_items v') = take (v_size v) (v_items v)
                  \<and> drop (v_size v) (take n (v_items v')) = replicate (n - v_size v) d))"
proof (intro conjI impI)
  assume "n < v_size v"
  then show "\<exists>v'. Resize d n v = Inr v' \<and> v_size v' = n \<and> v_capacity v' = v_capacity v
                  \<and> v_items v' = v_items v"
    by (simp add: Resize_shrink)
next
  assume a: "v_size v \<le> n \<and> n \<le> v_capacity v"
  with assms have l: "v_size v \<le> length (v_items v)" "n \<le> length (v_items v)"
    by (simp_all add: valid_def)
  have "Resize d n v
        = Inr (v\<lparr>v_items := take (v_size v) (v_items v) @ replicate (n - v_size v) d
                            @ drop n (v_items v),
                 v_size := n\<rparr>)"
    using a assms by (intro Resize_in_place) (simp_all add: valid_def)
  then show "\<exists>v'. Resize d n v = Inr v' \<and> v_size v' = n \<and> v_capacity v' = v_capacity v
                  \<and> take (v_size v) (v_items v') = take (v_size v) (v_items v)
                  \<and> drop (v_size v) (take n (v_items v')) = replicate (n - v_size v) d"
    using a l by (simp add: min_absorb2)
next
  assume a: "v_capacity v < n"
  with assms have l: "v_size v \<le> length (v_items v)" "v_size v \<le> n"
    by (simp_all add: valid_def)
  let ?m = "max (v_capacity v * 2) n"
  have "Resize d n v
        = Inr (v\<lparr>v_items := take (v_size v) (v_items v) @ replicate (?m - v_size v) d,
                 v_size := n, v_capacity := ?m\<rparr>)"
    using a assms by (intro Resize_grow) (simp_all add: valid_def)
  moreover have "max (v_capacity v * 2) n = max (2 * v_capacity v) n"
    by (simp add: mult.commute)
  moreover have "take (n - v_size v) (replicate (?m - v_size v) d) = replicate (n - v_size v) d"
    by (simp add: min_absorb2)
  ultimately show "\<exists>v'. Resize d n v = Inr v' \<and> v_size v' = n
                  \<and> v_capacity v' = max (2 * v_capacity v) n
                  \<and> take (v_size v) (v_items v') = take (v_size v) (v_items v)
                  \<and> drop (v_size v) (take n (v_items v')) = replicate (n - v_size v) d"
    using l by (simp add: min_absorb2)
qed

theorem Resize_cases_witness:
  "valid \<lparr>v_items = [1, 2, 3, 7 :: int], v_size = 3, v_capacity = 4\<rparr>
   \<and> (\<exists>v'. Resize 0 2 \<lparr>v_items = [1, 2, 3, 7 :: int], v_size = 3, v_capacity = 4\<rparr> = Inr v'
           \<and> v_size v' = 2 \<and> v_capacity v' = 4 \<and> v_items v' = [1, 2, 3, 7])
   \<and> (\<exists>v'. Resize 0 4 \<lparr>v_items = [1, 2, 3, 7 :: int], v_size = 3, v_capacity = 4\<rparr> = Inr v'
           \<and> v_size v' = 4 \<and> v_capacity v' = 4 \<and> take 3 (v_items v') = [1, 2, 3]
           \<and> drop 3 (take 4 (v_items v')) = [0])
   \<and> (\<exists>v'. Resize 0 9 \<lparr>v_items = [1, 2, 3, 7 :: int], v_size = 3, v_capacity = 4\<rparr> = Inr v'
           \<and> v_size v' = 9 \<and> v_capacity v' = 9 \<and> take 3 (v_items v') = [1, 2, 3]
           \<and> drop 3 (take 9 (v_items v')) = replicate 6 0)"
proof -
  let ?v = "\<lparr>v_items = [1, 2, 3, 7 :: int], v_size = 3, v_capacity = 4\<rparr>"
  have v: "valid ?v"
    by (simp add: valid_def)
  show ?thesis
    using v Resize_cases [OF v, of 2 0] Resize_cases [OF v, of 4 0] Resize_cases [OF v, of 9 0]
    by simp
qed

text \<open>
  C4. \<^verbatim>\<open>PushBack\<close> appends its item for every container. On the full container
  \<open>{1, 2, 3}\<close> the call \<^verbatim>\<open>v.PushBack(v[0])\<close> reads its item in the block that
  \<^verbatim>\<open>Resize\<close> has released; with spare capacity the same call appends the element.
\<close>

theorem PushBack_own_element_of_full_container:
  "SimpleVector_init 0 [1, 2, 3 :: int]
     = Inr \<lparr>v_items = [1, 2, 3], v_size = 3, v_capacity = 3\<rparr>
   \<and> valid \<lparr>v_items = [1, 2, 3 :: int], v_size = 3, v_capacity = 3\<rparr>
   \<and> PushBack 0 (Element 0) \<lparr>v_items = [1, 2, 3 :: int], v_size = 3, v_capacity = 3\<rparr>
     = Inl Undefined
   \<and> PushBack 0 (Element 0) \<lparr>v_items = [1, 2, 3, 0, 0, 0 :: int], v_size = 3, v_capacity = 6\<rparr>
     = Inr \<lparr>v_items = [1, 2, 3, 1, 0, 0], v_size = 4, v_capacity = 6\<rparr>"
proof -
  have "SimpleVector_init 0 [1, 2, 3 :: int]
        = Inr \<lparr>v_items = [1, 2, 3], v_size = 3, v_capacity = 3\<rparr>"
    by (simp add: SimpleVector_init_def ArrayPtr_def std_copy_def read_range_def write_range_def)
  moreover have "PushBack 0 (Element 0) \<lparr>v_items = [1, 2, 3 :: int], v_size = 3, v_capacity = 3\<rparr>
                 = Inl Undefined"
    by (rule PushBack_Element_full) simp_all
  moreover have "PushBack 0 (Element 0)
                   \<lparr>v_items = [1, 2, 3, 0, 0, 0 :: int], v_size = 3, v_capacity = 6\<rparr>
                 = Inr \<lparr>v_items = [1, 2, 3, 1, 0, 0], v_size = 4, v_capacity = 6\<rparr>"
    by (simp add: PushBack_Element_spare)
  ultimately show ?thesis
    by (simp add: valid_def)
qed

text \<open>
  C5. \<^verbatim>\<open>At(i)\<close> fails with the out-of-range error exactly when \<open>i\<close> is not below the
  size, and the container is then as it was; below the size it returns the element at
  position \<open>i\<close>. No other operation of the interface ends with that error: their only
  failures are undefined behaviour, and the remaining operations (default construction,
  the accessors, \<^verbatim>\<open>Clear\<close>, move assignment, \<^verbatim>\<open>swap\<close>) have no failure at all. A call of
  \<^verbatim>\<open>Insert\<close> that the compiler rejects reports nothing at run time.
\<close>

theorem At_only_checked_failure:
  "(fst (At v i) = Inl OutOfRange \<longleftrightarrow> v_size v \<le> i)
   \<and> (v_size v \<le> i \<longrightarrow> snd (At v i) = v)
   \<and> (i < v_size v \<and> v_size v \<le> length (v_items v) \<longrightarrow> At v i = (Inr (v_items v ! i), v))
   \<and> SimpleVector_fill d n x \<noteq> Inl OutOfRange
   \<and> SimpleVector_fill_move mv d n x \<noteq> Inl OutOfRange
   \<and> SimpleVector_n d n \<noteq> Inl OutOfRange
   \<and> SimpleVector_init d xs \<noteq> Inl OutOfRange
   \<and> SimpleVector_copy d v \<noteq> Inl OutOfRange
   \<and> SimpleVector_move d v \<noteq> Inl OutOfRange
   \<and> SimpleVector_reserve d n \<noteq> Inl OutOfRange
   \<and> subscript v i \<noteq> Inl OutOfRange
   \<and> Resize d n v \<noteq> Inl OutOfRange
   \<and> Reserve d n v \<noteq> Inl OutOfRange
   \<and> copy_assign d same v w \<noteq> Inl OutOfRange
   \<and> PushBack d a v \<noteq> Inl OutOfRange
   \<and> PushBack_move mv d a v \<noteq> Inl OutOfRange
   \<and> Insert d p a v \<noteq> Inl OutOfRange
   \<and> Insert_move mv d p a v \<noteq> Inl OutOfRange
   \<and> PopBack v \<noteq> Inl OutOfRange
   \<and> Erase p v \<noteq> Inl OutOfRange
   \<and> Erase_move mv p v \<noteq> Inl OutOfRange
   \<and> operator_eq same v w \<noteq> Inl OutOfRange
   \<and> operator_ne same v w \<noteq> Inl OutOfRange
   \<and> operator_lt l r \<noteq> Inl OutOfRange
   \<and> operator_le l r \<noteq> Inl OutOfRange
   \<and> operator_gt l r \<noteq> Inl OutOfRange
   \<and> operator_ge l r \<noteq> Inl OutOfRange"
proof -
  have at1: "fst (At v i) = Inl OutOfRange \<longleftrightarrow> v_size v \<le> i"
    by (simp add: At_def ArrayPtr_get_def)
  have at2: "v_size v \<le> i \<longrightarrow> snd (At v i) = v"
    by (simp add: At_def)
  have at3: "i < v_size v \<and> v_size v \<le> length (v_items v)
             \<longrightarrow> At v i = (Inr (v_items v ! i), v)"
    by (simp add: At_def ArrayPtr_get_def)
  have fill: "SimpleVector_fill d n x \<noteq> Inl OutOfRange"
    by (simp add: SimpleVector_fill_def std_fill_def and_then_throws write_range_no_throw)
  have fillm: "SimpleVector_fill_move mv d n x \<noteq> Inl OutOfRange"
    by (simp add: SimpleVector_fill_move_def and_then_throws fill_move_loop_no_throw)
  have init: "SimpleVector_init d xs \<noteq> Inl OutOfRange"
    by (simp add: SimpleVector_init_def and_then_throws std_copy_no_throw)
  have mv: "SimpleVector_move d v \<noteq> Inl OutOfRange"
    by (simp add: SimpleVector_move_def Let_def and_then_throws std_copy_no_throw)
  have res: "Reserve d n u \<noteq> Inl OutOfRange" for u :: "'a SimpleVector"
    by (simp add: Reserve_def and_then_throws std_copy_no_throw)
  have resc: "SimpleVector_reserve d n \<noteq> Inl OutOfRange"
    unfolding SimpleVector_reserve_def by (rule res)
  have sub: "subscript v i \<noteq> Inl OutOfRange"
    by (simp add: subscript_def ArrayPtr_get_no_throw)
  have ca: "copy_assign d same v w \<noteq> Inl OutOfRange"
    by (simp add: copy_assign_def and_then_throws operator_eq_no_throw
        SimpleVector_copy_no_throw)
  have ins: "Insert d p a v \<noteq> Inl OutOfRange"
    by (simp add: Insert_def Let_def and_then_throws PushBack_no_throw std_copy_no_throw
        read_arg_no_throw ArrayPtr_set_no_throw std_copy_backward_no_throw)
  have insm: "Insert_move mv d p a v \<noteq> Inl OutOfRange"
    by (simp add: Insert_move_def Let_def and_then_throws PushBack_move_no_throw
        std_move_no_throw read_arg_no_throw ArrayPtr_set_no_throw std_move_backward_no_throw
        std_move_backward_within_no_throw split: prod.splits)
  have pop: "PopBack v \<noteq> Inl OutOfRange"
    by (simp add: PopBack_def)
  have er: "Erase p v \<noteq> Inl OutOfRange"
    by (simp add: Erase_def and_then_throws std_copy_within_no_throw)
  have erm: "Erase_move mv p v \<noteq> Inl OutOfRange"
    by (simp add: Erase_move_def and_then_throws std_move_within_no_throw)
  have ne: "operator_ne same v w \<noteq> Inl OutOfRange"
    by (simp add: operator_ne_def and_then_throws operator_eq_no_throw)
  have le: "operator_le l r \<noteq> Inl OutOfRange"
    by (simp add: operator_le_def and_then_throws operator_lt_no_throw)
  have gt: "operator_gt l r \<noteq> Inl OutOfRange"
    unfolding operator_gt_def by (rule operator_lt_no_throw)
  have ge: "operator_ge l r \<noteq> Inl OutOfRange"
    by (simp add: operator_ge_def and_then_throws operator_lt_no_throw)
  show ?thesis
    by (intro conjI at1 at2 at3 fill fillm SimpleVector_n_no_throw init
        SimpleVector_copy_no_throw mv resc sub Resize_no_throw res ca PushBack_no_throw
        PushBack_move_no_throw ins insm pop er erm operator_eq_no_throw ne operator_lt_no_throw le gt ge)
qed

theorem At_only_checked_failure_witness:
  "fst (At \<lparr>v_items = [10, 20, 30 :: int], v_size = 3, v_capacity = 3\<rparr> 5) = Inl OutOfRange
   \<and> snd (At \<lparr>v_items = [10, 20, 30 :: int], v_size = 3, v_capacity = 3\<rparr> 5)
       = \<lparr>v_items = [10, 20, 30], v_size = 3, v_capacity = 3\<rparr>
   \<and> At \<lparr>v_items = [10, 20, 30 :: int], v_size = 3, v_capacity = 3\<rparr> 2
       = (Inr 30, \<lparr>v_items = [10, 20, 30], v_size = 3, v_capacity = 3\<rparr>)"
  using At_only_checked_failure
      [where v = "\<lparr>v_items = [10, 20, 30 :: int], v_size = 3, v_capacity = 3\<rparr>" and i = 5
         and mv = "\<lambda>x. x" and d = 0 and n = 0 and x = 0
         and xs = "[]" and same = False
         and w = "\<lparr>v_items = [], v_size = 0, v_capacity = 0\<rparr>" and a = "Value 0" and p = 0
         and l = "\<lparr>v_items = [] :: int list, v_size = 0, v_capacity = 0\<rparr>"
         and r = "\<lparr>v_items = [] :: int list, v_size = 0, v_capacity = 0\<rparr>"]
    At_only_checked_failure
      [where v = "\<lparr>v_items = [10, 20, 30 :: int], v_size = 3, v_capacity = 3\<rparr>" and i = 2
         and mv = "\<lambda>x. x" and d = 0 and n = 0 and x = 0
         and xs = "[]" and same = False
         and w = "\<lparr>v_items = [], v_size = 0, v_capacity = 0\<rparr>" and a = "Value 0" and p = 0
         and l = "\<lparr>v_items = [] :: int list, v_size = 0, v_capacity = 0\<rparr>"
         and r = "\<lparr>v_items = [] :: int list, v_size = 0, v_capacity = 0\<rparr>"]
  by simp

text \<open>
  C6. Copy assignment \<^verbatim>\<open>a = b\<close> leaves \<open>b\<close> as it was and makes \<open>a\<close> compare equal to
  \<open>b\<close>: same size, same elements. When \<open>a\<close> and \<open>b\<close> already compare equal, also as two
  distinct objects, \<open>a\<close> keeps its block, its size and its capacity.
\<close>

theorem copy_assign_equal:
  assumes "v_size a \<le> length (v_items a)" and "v_size b \<le> length (v_items b)"
    and "same \<longrightarrow> a = b"
  shows "\<exists>a' b'. copy_assign d same a b = Inr (a', b')
          \<and> b' = b
          \<and> operator_eq False a' b = Inr True
          \<and> v_size a' = v_size b \<and> elements a' = elements b
          \<and> (operator_eq same a b = Inr True \<longrightarrow> a' = a)"
proof -
  let ?c = "\<lparr>v_items = take (v_size b) (v_items b), v_size = v_size b,
             v_capacity = v_capacity b\<rparr>"
  let ?a' = "if elements a = elements b then a else ?c"
  have ca: "copy_assign d same a b = Inr (?a', b)"
    using assms by (rule copy_assign_ok)
  have el: "elements ?a' = elements b"
    by (simp add: elements_def)
  have l': "v_size ?a' \<le> length (v_items ?a')"
    using assms(1,2) by simp
  have sz: "v_size ?a' = v_size b"
  proof (cases "elements a = elements b")
    case True
    then have "length (elements a) = length (elements b)" by simp
    then have "v_size a = v_size b"
      using assms(1,2) by (simp only: elements_length)
    then show ?thesis
      using True by simp
  next
    case False
    then show ?thesis by simp
  qed
  have eq: "operator_eq False ?a' b = Inr True"
    using operator_eq_ok [OF l' assms(2)] el by simp
  have keep: "operator_eq same a b = Inr True \<longrightarrow> ?a' = a"
  proof (cases same)
    case True
    with assms(3) show ?thesis by simp
  next
    case False
    then show ?thesis
      using operator_eq_ok [OF assms(1,2)] by simp
  qed
  show ?thesis
    using ca el sz eq keep by simp
qed

theorem copy_assign_equal_witness:
  "v_size \<lparr>v_items = [1, 2, 7 :: int], v_size = 2, v_capacity = 3\<rparr>
     \<le> length (v_items \<lparr>v_items = [1, 2, 7 :: int], v_size = 2, v_capacity = 3\<rparr>)
   \<and> v_size \<lparr>v_items = [1, 2 :: int], v_size = 2, v_capacity = 2\<rparr>
     \<le> length (v_items \<lparr>v_items = [1, 2 :: int], v_size = 2, v_capacity = 2\<rparr>)
   \<and> operator_eq False \<lparr>v_items = [1, 2, 7 :: int], v_size = 2, v_capacity = 3\<rparr>
        \<lparr>v_items = [1, 2], v_size = 2, v_capacity = 2\<rparr> = Inr True
   \<and> (\<exists>a' b'. copy_assign 0 False \<lparr>v_items = [1, 2, 7 :: int], v_size = 2, v_capacity = 3\<rparr>
                   \<lparr>v_items = [1, 2], v_size = 2, v_capacity = 2\<rparr> = Inr (a', b')
          \<and> b' = \<lparr>v_items = [1, 2], v_size = 2, v_capacity = 2\<rparr>
          \<and> a' = \<lparr>v_items = [1, 2, 7], v_size = 2, v_capacity = 3\<rparr>)
   \<and> (\<exists>a' b'. copy_assign 0 True \<lparr>v_items = [1, 2 :: int], v_size = 2, v_capacity = 2\<rparr>
                   \<lparr>v_items = [1, 2], v_size = 2, v_capacity = 2\<rparr> = Inr (a', b')
          \<and> b' = \<lparr>v_items = [1, 2], v_size = 2, v_capacity = 2\<rparr>
          \<and> a' = \<lparr>v_items = [1, 2], v_size = 2, v_capacity = 2\<rparr>)
   \<and> (\<exists>a' b'. copy_assign 0 False \<lparr>v_items = [1, 2 :: int], v_size = 2, v_capacity = 2\<rparr>
                   \<lparr>v_items = [1, 2, 7], v_size = 2, v_capacity = 3\<rparr> = Inr (a', b')
          \<and> operator_eq False a' \<lparr>v_items = [1, 2, 7], v_size = 2, v_capacity = 3\<rparr> = Inr True)"
proof -
  let ?a = "\<lparr>v_items = [1, 2, 7 :: int], v_size = 2, v_capacity = 3\<rparr>"
  let ?b = "\<lparr>v_items = [1, 2 :: int], v_size = 2, v_capacity = 2\<rparr>"
  have a: "v_size ?a \<le> length (v_items ?a)" and b: "v_size ?b \<le> length (v_items ?b)"
    and s: "False \<longrightarrow> ?a = ?b" and s': "True \<longrightarrow> ?b = ?b" and s'': "False \<longrightarrow> ?b = ?a"
    by simp_all
  have e: "operator_eq False ?a ?b = Inr True" and e': "operator_eq True ?b ?b = Inr True"
    by (simp_all add: operator_eq_def std_equal_def read_range_def begin_it_def end_it_def)
  show ?thesis
    using a b e e' copy_assign_equal [OF a b s, of 0] copy_assign_equal [OF b b s', of 0]
      copy_assign_equal [OF b a s'', of 0]
    by auto
qed

text \<open>
  C7. \<^verbatim>\<open>Insert(p, x)\<close> with spare capacity shifts the suffix in place. For a named
  value \<open>x\<close> the call selects the overload taking \<^verbatim>\<open>const Type&\<close>, whose statement for
  this path has no meaning; the overload taking \<^verbatim>\<open>Type&&\<close> does the shift.
\<close>

theorem Insert_named_value_with_spare_capacity:
  "valid \<lparr>v_items = [1, 4, 2, 3, 0, 0 :: int], v_size = 4, v_capacity = 6\<rparr>
   \<and> Insert 0 1 (Value 9) \<lparr>v_items = [1, 4, 2, 3, 0, 0 :: int], v_size = 4, v_capacity = 6\<rparr>
     = Inl IllFormed
   \<and> Insert_move (\<lambda>x. x) 0 1 (Value 9)
        \<lparr>v_items = [1, 4, 2, 3, 0, 0 :: int], v_size = 4, v_capacity = 6\<rparr>
     = Inr (\<lparr>v_items = [1, 9, 4, 2, 3, 0], v_size = 5, v_capacity = 6\<rparr>, 1)"
proof -
  have "Insert 0 1 (Value 9) \<lparr>v_items = [1, 4, 2, 3, 0, 0 :: int], v_size = 4, v_capacity = 6\<rparr>
        = Inl IllFormed"
    by (simp add: Insert_def begin_it_def end_it_def)
  moreover have "Insert_move (\<lambda>x. x) 0 1 (Value 9)
                   \<lparr>v_items = [1, 4, 2, 3, 0, 0 :: int], v_size = 4, v_capacity = 6\<rparr>
                 = Inr (\<lparr>v_items = [1, 9, 4, 2, 3, 0], v_size = 5, v_capacity = 6\<rparr>, 1)"
    by (simp add: Insert_move_spare)
  ultimately show ?thesis
    by (simp add: valid_def)
qed

text \<open>
  C8. \<^verbatim>\<open>PushBack\<close> followed by \<^verbatim>\<open>PopBack\<close> restores the container. On the full
  container \<open>{1, 2, 3}\<close>, \<^verbatim>\<open>v.PushBack(v[0]); v.PopBack()\<close> has no defined result: the
  item is read in the released block.
\<close>

theorem PushBack_own_element_then_PopBack:
  "valid \<lparr>v_items = [1, 2, 3 :: int], v_size = 3, v_capacity = 3\<rparr>
   \<and> and_then (PushBack 0 (Element 0) \<lparr>v_items = [1, 2, 3 :: int], v_size = 3, v_capacity = 3\<rparr>)
        PopBack = Inl Undefined"
proof -
  have "PushBack 0 (Element 0) \<lparr>v_items = [1, 2, 3 :: int], v_size = 3, v_capacity = 3\<rparr>
        = Inl Undefined"
    by (rule PushBack_Element_full) simp_all
  then show ?thesis
    by (simp add: valid_def)
qed

text \<open>
  C9. Move construction and move assignment both leave the source with size 0 and
  capacity 0, and the destination has the size and the elements the source had.
\<close>

theorem move_empties_source:
  assumes "v_size b \<le> length (v_items b)"
  shows "(\<exists>w b'. SimpleVector_move d b = Inr (w, b')
            \<and> v_size b' = 0 \<and> v_capacity b' = 0
            \<and> v_size w = v_size b \<and> elements w = elements b)
       \<and> (\<exists>a' b'. move_assign a b = (a', b')
            \<and> v_size b' = 0 \<and> v_capacity b' = 0
            \<and> v_size a' = v_size b \<and> elements a' = elements b)"
proof
  show "\<exists>w b'. SimpleVector_move d b = Inr (w, b')
            \<and> v_size b' = 0 \<and> v_capacity b' = 0
            \<and> v_size w = v_size b \<and> elements w = elements b"
    using SimpleVector_move_ok [OF assms, of d] by (simp add: elements_def)
next
  show "\<exists>a' b'. move_assign a b = (a', b')
            \<and> v_size b' = 0 \<and> v_capacity b' = 0
            \<and> v_size a' = v_size b \<and> elements a' = elements b"
    by (simp add: move_assign_def elements_def)
qed

theorem move_empties_source_witness:
  "v_size \<lparr>v_items = [1, 2, 3, 0, 0, 0 :: int], v_size = 3, v_capacity = 6\<rparr>
     \<le> length (v_items \<lparr>v_items = [1, 2, 3, 0, 0, 0 :: int], v_size = 3, v_capacity = 6\<rparr>)
   \<and> (\<exists>w b'. SimpleVector_move 0
                 \<lparr>v_items = [1, 2, 3, 0, 0, 0 :: int], v_size = 3, v_capacity = 6\<rparr> = Inr (w, b')
            \<and> v_size b' = 0 \<and> v_capacity b' = 0 \<and> v_size w = 3 \<and> elements w = [1, 2, 3])
   \<and> (\<exists>a' b'. move_assign \<lparr>v_items = [9], v_size = 1, v_capacity = 1\<rparr>
                 \<lparr>v_items = [1, 2, 3, 0, 0, 0 :: int], v_size = 3, v_capacity = 6\<rparr> = (a', b')
            \<and> v_size b' = 0 \<and> v_capacity b' = 0 \<and> v_size a' = 3 \<and> elements a' = [1, 2, 3])"
proof -
  let ?b = "\<lparr>v_items = [1, 2, 3, 0, 0, 0 :: int], v_size = 3, v_capacity = 6\<rparr>"
  have b: "v_size ?b \<le> length (v_items ?b)"
    by simp
  show ?thesis
    using b move_empties_source [OF b, of 0 "\<lparr>v_items = [9], v_size = 1, v_capacity = 1\<rparr>"]
    by (simp add: elements_def)
qed

text \<open>
  C10. \<^verbatim>\<open>Insert(v.end(), x)\<close> and \<^verbatim>\<open>PushBack(x)\<close> give the same container. For a
  named value \<open>x\<close> and a container with spare capacity \<^verbatim>\<open>PushBack(x)\<close> appends \<open>x\<close>,
  while \<^verbatim>\<open>Insert(v.end(), x)\<close> selects the overload whose statement for this path has
  no meaning.
\<close>

theorem Insert_named_value_at_end:
  "valid \<lparr>v_items = [1, 2, 3, 0 :: int], v_size = 3, v_capacity = 4\<rparr>
   \<and> Insert 0 (end_it \<lparr>v_items = [1, 2, 3, 0 :: int], v_size = 3, v_capacity = 4\<rparr>) (Value 4)
        \<lparr>v_items = [1, 2, 3, 0 :: int], v_size = 3, v_capacity = 4\<rparr>
     = Inl IllFormed
   \<and> PushBack 0 (Value 4) \<lparr>v_items = [1, 2, 3, 0 :: int], v_size = 3, v_capacity = 4\<rparr>
     = Inr \<lparr>v_items = [1, 2, 3, 4], v_size = 4, v_capacity = 4\<rparr>"
proof -
  have "Insert 0 (end_it \<lparr>v_items = [1, 2, 3, 0 :: int], v_size = 3, v_capacity = 4\<rparr>) (Value 4)
          \<lparr>v_items = [1, 2, 3, 0 :: int], v_size = 3, v_capacity = 4\<rparr>
        = Inl IllFormed"
    by (simp add: Insert_def begin_it_def end_it_def)
  moreover have "PushBack 0 (Value 4) \<lparr>v_items = [1, 2, 3, 0 :: int], v_size = 3, v_capacity = 4\<rparr>
                 = Inr \<lparr>v_items = [1, 2, 3, 4], v_size = 4, v_capacity = 4\<rparr>"
    by (simp add: PushBack_spare)
  ultimately show ?thesis
    by (simp add: valid_def)
qed

end
